theory Spec2Isabelle
  imports Complex_Main
begin

section \<open>JavaScript values used by the installer routes\<close>

text \<open>
  Strings are lists of code units; the literals of the routes stay inside Latin-1, so a
  code unit is a \<open>char\<close>. \<open>String.prototype.trim\<close> strips white space and line
  terminators from both ends; inside Latin-1 these are TAB, LF, VT, FF, CR, SPACE and NBSP.
\<close>

definition is_white_space :: "char \<Rightarrow> bool" where
  "is_white_space c \<longleftrightarrow>
     c \<in> {CHR 0x09, CHR 0x0A, CHR 0x0B, CHR 0x0C, CHR 0x0D, CHR 0x20, CHR 0xA0}"

definition trim :: "string \<Rightarrow> string" where
  "trim s = rev (dropWhile is_white_space (rev (dropWhile is_white_space s)))"

text \<open>\<open>x?.trim()\<close> on an optional string: \<open>undefined\<close> is falsy like the empty string.\<close>

definition opt_trim :: "string option \<Rightarrow> string" where
  "opt_trim x = (case x of None \<Rightarrow> [] | Some s \<Rightarrow> trim s)"

text \<open>\<open>a || b\<close> on strings: the empty string is falsy.\<close>

definition or_else :: "string \<Rightarrow> string \<Rightarrow> string" where
  "or_else a b = (if a \<noteq> [] then a else b)"

text \<open>\<open>s.replace(pat, rep)\<close> with a string pattern replaces the first occurrence only.\<close>

fun replace_first :: "string \<Rightarrow> string \<Rightarrow> string \<Rightarrow> string" where
  "replace_first pat rep [] = (if pat = [] then rep else [])"
| "replace_first pat rep (c # cs) =
     (if take (length pat) (c # cs) = pat then rep @ drop (length pat) (c # cs)
      else c # replace_first pat rep cs)"

text \<open>The accented letters of the Portuguese literals.\<close>

definition a_tilde :: char where "a_tilde = CHR 0xE3"
definition c_cedilla :: char where "c_cedilla = CHR 0xE7"
definition e_circumflex :: char where "e_circumflex = CHR 0xEA"

text \<open>A thrown value: an \<open>Error\<close> instance with its \<open>message\<close>, or anything else.\<close>

datatype thrown = Error_instance string | Non_error

text \<open>What awaiting a collaborator gives: its value, or the exception it throws.\<close>

datatype 'a outcome = Returns 'a | Throws thrown


section \<open>The Installation Request: \<open>RunSchema\<close> after parsing\<close>

datatype target = production | preview

record vercel_data =
  token :: string
  teamId :: "string option"
  projectId :: string
  targets :: "target list"

record supabase_data =
  url :: string
  anonKey :: "string option"
  serviceRoleKey :: "string option"
  dbUrl :: "string option"
  accessToken :: "string option"
  projectRef :: "string option"
  deployEdgeFunctions :: bool

record admin_data =
  companyName :: string
  email :: string
  password :: string

record healthCheck_data =
  skipWaitProject :: bool
  skipWaitStorage :: bool
  skipMigrations :: bool
  skipBootstrap :: bool
  estimatedSeconds :: real

record RunData =
  installerToken :: "string option"
  vercel :: vercel_data
  supabase :: supabase_data
  admin :: admin_data
  healthCheck :: "healthCheck_data option"

text \<open>\<open>healthCheck?.flag\<close>: false when the hint is absent.\<close>

definition hint :: "(healthCheck_data \<Rightarrow> bool) \<Rightarrow> RunData \<Rightarrow> bool" where
  "hint flag rq = (case healthCheck rq of None \<Rightarrow> False | Some h \<Rightarrow> flag h)"

definition skippedSteps :: "RunData \<Rightarrow> string list" where
  "skippedSteps rq =
     (if hint skipWaitProject rq then [''wait_project''] else []) @
     (if hint skipWaitStorage rq then [''wait_storage''] else []) @
     (if hint skipMigrations rq then [''migrations''] else []) @
     (if hint skipBootstrap rq then [''bootstrap''] else [])"

text \<open>\<open>skippedSteps.includes(step)\<close>.\<close>

definition includes_step :: "string list \<Rightarrow> string \<Rightarrow> bool" where
  "includes_step xs x \<longleftrightarrow> x \<in> set xs"

text \<open>\<open>admin.companyName.split(' ')[0] || DEFAULT\<close>, where the default is the
  four-letter pronoun ending in e-circumflex.\<close>

definition firstName :: "RunData \<Rightarrow> string" where
  "firstName rq =
     or_else (takeWhile (\<lambda>c. c \<noteq> CHR '' '') (companyName (admin rq)))
             (''voc'' @ [e_circumflex])"


section \<open>Phases and stream events\<close>

datatype PhaseId = coordinates | signal | station | comms | contact | landing | complete

datatype event_type = T_phase | T_progress | T_error | T_complete

record StreamEvent =
  type :: event_type
  phase :: "PhaseId option"
  title :: "string option"
  subtitle :: "string option"
  progress :: "int option"
  error :: "string option"
  ok :: "bool option"

text \<open>\<open>createCinemaPhases(firstName)[phase]\<close>: the title and the subtitle of a phase.\<close>

fun createCinemaPhases :: "string \<Rightarrow> PhaseId \<Rightarrow> string \<times> string" where
  "createCinemaPhases fn coordinates =
     (''Calibrando coordenadas'', ''Definindo rota para o destino...'')"
| "createCinemaPhases fn signal =
     (''Aguardando sinal'', ''Confirmando conex'' @ [a_tilde] @ ''o com o destino...'')"
| "createCinemaPhases fn station =
     (''Construindo a esta'' @ [c_cedilla, a_tilde] @ ''o'', ''Preparando infraestrutura...'')"
| "createCinemaPhases fn comms =
     (''Ativando comunicadores'',
      ''Estabelecendo canais de comunica'' @ [c_cedilla, a_tilde] @ ''o...'')"
| "createCinemaPhases fn contact =
     (''Primeiro contato'', ''Criando sua identidade no novo mundo...'')"
| "createCinemaPhases fn landing =
     (''Preparando pouso'', ''Finalizando a jornada...'')"
| "createCinemaPhases fn complete =
     (''Miss'' @ [a_tilde] @ ''o cumprida, '' @ fn @ ''!'', ''Bem-vindo ao novo mundo.'')"

definition phase_event :: "RunData \<Rightarrow> PhaseId \<Rightarrow> int \<Rightarrow> StreamEvent" where
  "phase_event rq ph p =
     \<lparr>type = T_phase, phase = Some ph,
      title = Some (fst (createCinemaPhases (firstName rq) ph)),
      subtitle = Some (snd (createCinemaPhases (firstName rq) ph)),
      progress = Some p, error = None, ok = None\<rparr>"

definition error_event :: "string \<Rightarrow> StreamEvent" where
  "error_event msg =
     \<lparr>type = T_error, phase = None, title = None, subtitle = None,
      progress = None, error = Some msg, ok = None\<rparr>"

definition complete_event :: StreamEvent where
  "complete_event =
     \<lparr>type = T_complete, phase = None, title = None, subtitle = None,
      progress = None, error = None, ok = Some True\<rparr>"

text \<open>The messages of the error events.\<close>

definition msg_no_access_token :: string where
  "msg_no_access_token = ''Token de acesso Supabase n'' @ [a_tilde] @ ''o fornecido.''"

definition msg_no_project_ref :: string where
  "msg_no_project_ref =
     ''Refer'' @ [e_circumflex] @ ''ncia do projeto Supabase n'' @ [a_tilde] @ ''o encontrada.''"

definition msg_keys_failed :: string where
  "msg_keys_failed = ''Falha ao obter chaves de acesso.''"

definition msg_db_failed :: string where
  "msg_db_failed = ''Falha ao conectar com o banco de dados.''"

definition msg_not_ready :: string where
  "msg_not_ready = ''Destino n'' @ [a_tilde] @ ''o respondeu a tempo.''"

definition msg_secrets_failed :: string where
  "msg_secrets_failed = ''Falha ao configurar comunicadores.''"

definition msg_bootstrap_failed :: string where
  "msg_bootstrap_failed = ''Falha ao estabelecer primeiro contato.''"

definition msg_generic :: string where
  "msg_generic = ''Erro durante a miss'' @ [a_tilde] @ ''o.''"

text \<open>\<open>err instanceof Error ? err.message : GENERIC\<close>, where the generic message
  is \<open>msg_generic\<close>.\<close>

definition exception_message :: "thrown \<Rightarrow> string" where
  "exception_message err = (case err of Error_instance m \<Rightarrow> m | Non_error \<Rightarrow> msg_generic)"


section \<open>Collaborators\<close>

text \<open>
  The functions imported from \<open>@/lib/installer/*\<close> are parameters of the model: for the
  arguments of a call, each gives what awaiting it yields. \<open>url_hostname\<close> is
  \<open>new URL(s).hostname\<close>, which throws on a string that is no URL.
\<close>

datatype keys_result = Keys_failed | Keys_ok (publishableKey: string) (secretKey: string)

datatype db_result = Db_failed | Db_ok string

typedecl SupabaseFunctionDeployResult

type_synonym env_entry = "string \<times> string \<times> target list"

record collaborators =
  extractProjectRefFromSupabaseUrl :: "string \<Rightarrow> string option"
  listEdgeFunctionSlugs :: "string list outcome"
  resolveSupabaseApiKeys :: "string \<Rightarrow> string \<Rightarrow> keys_result outcome"
  resolveSupabaseDbUrlViaCliLoginRole :: "string \<Rightarrow> string \<Rightarrow> db_result outcome"
  url_hostname :: "string \<Rightarrow> string outcome"
  upsertProjectEnvs ::
    "string \<Rightarrow> string \<Rightarrow> env_entry list \<Rightarrow> string option \<Rightarrow> unit outcome"
  waitForSupabaseProjectReady :: "string \<Rightarrow> string \<Rightarrow> nat \<Rightarrow> nat \<Rightarrow> bool outcome"
  runSchemaMigration :: "string \<Rightarrow> unit outcome"
  setSupabaseEdgeFunctionSecrets ::
    "string \<Rightarrow> string \<Rightarrow> string \<Rightarrow> string \<Rightarrow> string \<Rightarrow> bool outcome"
  deployAllSupabaseEdgeFunctions ::
    "string \<Rightarrow> string \<Rightarrow> SupabaseFunctionDeployResult list outcome"
  bootstrapInstance ::
    "string \<Rightarrow> string \<Rightarrow> string \<Rightarrow> string \<Rightarrow> string \<Rightarrow> bool outcome"
  triggerProjectRedeploy :: "string \<Rightarrow> string \<Rightarrow> string option \<Rightarrow> unit outcome"

text \<open>A call as the trace records it, with the arguments in the order the source passes them.\<close>

datatype collaborator_call =
    Call_listEdgeFunctionSlugs
  | Call_resolveSupabaseApiKeys string string
  | Call_resolveSupabaseDbUrlViaCliLoginRole string string
  | Call_upsertProjectEnvs string string "env_entry list" "string option"
  | Call_waitForSupabaseProjectReady string string nat nat
  | Call_runSchemaMigration string
  | Call_setSupabaseEdgeFunctionSecrets string string string string string
  | Call_deployAllSupabaseEdgeFunctions string string
  | Call_bootstrapInstance string string string string string
  | Call_triggerProjectRedeploy string string "string option"

text \<open>
  The lines \<open>log(step, detail)\<close> and \<open>console.log\<close> write, without the elapsed time:
  one constructor for each place of the source, with the values its detail is built from.
\<close>

datatype log_line =
    Console_skipping_steps "string list"
  | Log_inicio "string list"
  | Log_phase1
  | Log_resolvendo_chaves bool
  | Log_chaves_obtidas string
  | Log_resolvendo_db_url bool
  | Log_db_url_obtida string
  | Log_configurando_vercel
  | Log_phase2
  | Console_skipping_wait_project
  | Log_phase3
  | Log_executando_migrations
  | Log_migrations_concluidas
  | Console_skipping_migrations
  | Log_phase4
  | Log_configurando_secrets
  | Log_deployando
  | Log_phase5
  | Log_criando_organizacao
  | Console_skipping_bootstrap
  | Log_phase6
  | Log_disparando_redeploy
  | Log_complete


section \<open>The background task as a computation over its trace\<close>

text \<open>
  The state of a run is the trace of what it has done so far: the events written to the
  stream, the invocations of \<open>writer.close()\<close>, the collaborator calls and the log lines.
  The writer is closed once \<open>Close\<close> is in the trace.
\<close>

datatype action =
    Emit StreamEvent
  | Close
  | Call collaborator_call
  | Log log_line

type_synonym trace = "action list"

text \<open>
  A statement completes normally with a value, by \<open>return\<close> out of the task, or by
  throwing.
\<close>

datatype 'a completion = Val 'a | Ret | Exc thrown

type_synonym 'a task = "trace \<Rightarrow> 'a completion \<times> trace"

definition unit_task :: "'a \<Rightarrow> 'a task" where
  "unit_task v s = (Val v, s)"

definition return_task :: "'a task" where
  "return_task s = (Ret, s)"

definition bind :: "'a task \<Rightarrow> ('a \<Rightarrow> 'b task) \<Rightarrow> 'b task" where
  "bind m f s =
     (case m s of
        (Val v, s') \<Rightarrow> f v s'
      | (Ret, s') \<Rightarrow> (Ret, s')
      | (Exc e, s') \<Rightarrow> (Exc e, s'))"

definition seq :: "unit task \<Rightarrow> 'a task \<Rightarrow> 'a task" where
  "seq m n = bind m (\<lambda>_. n)"

text \<open>\<open>try { m } catch (err) { h err }\<close>: a \<open>return\<close> passes through.\<close>

definition try_catch :: "'a task \<Rightarrow> (thrown \<Rightarrow> 'a task) \<Rightarrow> 'a task" where
  "try_catch m h s =
     (case m s of
        (Exc e, s') \<Rightarrow> h e s'
      | (r, s') \<Rightarrow> (r, s'))"

text \<open>
  \<open>try { m } finally { fin }\<close>: \<open>fin\<close> runs on every completion of \<open>m\<close>, and an exception
  of \<open>fin\<close> replaces that completion.
\<close>

definition try_finally :: "'a task \<Rightarrow> unit task \<Rightarrow> 'a task" where
  "try_finally m fin s =
     (case m s of
        (r, s') \<Rightarrow>
          (case fin s' of
             (Exc e, s'') \<Rightarrow> (Exc e, s'')
           | (_, s'') \<Rightarrow> (r, s'')))"

text \<open>
  The stream writer. A write to, or a close of, a writer that is already closed rejects
  with a \<open>TypeError\<close>; the trace records every invocation of \<open>close\<close>.
\<close>

definition writer_closed_error :: thrown where
  "writer_closed_error = Error_instance ''Invalid state: WritableStream is closed''"

definition writer_write :: "StreamEvent \<Rightarrow> unit task" where
  "writer_write e s =
     (if Close \<in> set s then (Exc writer_closed_error, s) else (Val (), s @ [Emit e]))"

definition writer_close :: "unit task" where
  "writer_close s =
     (if Close \<in> set s then (Exc writer_closed_error, s @ [Close]) else (Val (), s @ [Close]))"

definition sendEvent :: "StreamEvent \<Rightarrow> unit task" where
  "sendEvent e = writer_write e"

definition sendPhase :: "RunData \<Rightarrow> PhaseId \<Rightarrow> int \<Rightarrow> unit task" where
  "sendPhase rq ph p = sendEvent (phase_event rq ph p)"

definition log :: "log_line \<Rightarrow> unit task" where
  "log l s = (Val (), s @ [Log l])"

text \<open>Awaiting a collaborator: the call is recorded, then it returns or throws.\<close>

definition call :: "collaborator_call \<Rightarrow> 'a outcome \<Rightarrow> 'a task" where
  "call c r s = (case r of Returns v \<Rightarrow> (Val v, s @ [Call c]) | Throws e \<Rightarrow> (Exc e, s @ [Call c]))"

text \<open>A pure expression that may throw.\<close>

definition eval :: "'a outcome \<Rightarrow> 'a task" where
  "eval r s = (case r of Returns v \<Rightarrow> (Val v, s) | Throws e \<Rightarrow> (Exc e, s))"

text \<open>
  The pattern of every handled failure:
  \<open>await sendEvent({ type: 'error', error }); await writer.close(); return;\<close>
\<close>

definition fail_with :: "string \<Rightarrow> 'a task" where
  "fail_with msg = seq (sendEvent (error_event msg)) (seq writer_close return_task)"


section \<open>The run: the background task of \<open>POST\<close>\<close>

text \<open>
  The local variables of the task. The values computed once before phase 1 and never
  reassigned (\<open>const\<close> in the source) are one record; the three secrets, which phase 1
  reassigns when it has to derive them (\<open>let\<close> in the source), are another.
\<close>

record resolved =
  resolvedProjectRef :: string
  resolvedAccessToken :: string
  needsKeys :: bool
  needsDb :: bool
  hasLocalEdgeFunctions :: bool

record resolved_secrets =
  resolvedAnonKey :: string
  resolvedServiceRoleKey :: string
  resolvedDbUrl :: string

text \<open>\<open>vercel.teamId || undefined\<close>\<close>

definition teamId_or_undefined :: "RunData \<Rightarrow> string option" where
  "teamId_or_undefined rq =
     (case teamId (vercel rq) of None \<Rightarrow> None | Some t \<Rightarrow> if t = [] then None else Some t)"

text \<open>Lines 172 to 200: resolving the inputs and the check on the management API.\<close>

definition initial_secrets :: "RunData \<Rightarrow> resolved_secrets" where
  "initial_secrets rq =
     \<lparr>resolvedAnonKey = or_else (opt_trim (anonKey (supabase rq))) [],
      resolvedServiceRoleKey = or_else (opt_trim (serviceRoleKey (supabase rq))) [],
      resolvedDbUrl = or_else (opt_trim (dbUrl (supabase rq))) []\<rparr>"

definition initial_resolved :: "collaborators \<Rightarrow> RunData \<Rightarrow> string list \<Rightarrow> resolved" where
  "initial_resolved ev rq localEdgeFunctionSlugs =
     \<lparr>resolvedProjectRef =
        or_else (opt_trim (projectRef (supabase rq)))
          (or_else (case extractProjectRefFromSupabaseUrl ev (url (supabase rq)) of
                      None \<Rightarrow> [] | Some r \<Rightarrow> r) []),
      resolvedAccessToken = or_else (opt_trim (accessToken (supabase rq))) [],
      needsKeys = (resolvedAnonKey (initial_secrets rq) = [] \<or>
                   resolvedServiceRoleKey (initial_secrets rq) = []),
      needsDb = (resolvedDbUrl (initial_secrets rq) = []),
      hasLocalEdgeFunctions = (length localEdgeFunctionSlugs > 0)\<rparr>"

definition needsManagementApi :: "RunData \<Rightarrow> resolved \<Rightarrow> bool" where
  "needsManagementApi rq c \<longleftrightarrow>
     needsKeys c \<or> needsDb c \<or> (deployEdgeFunctions (supabase rq) \<and> hasLocalEdgeFunctions c)"

definition resolve_inputs :: "collaborators \<Rightarrow> RunData \<Rightarrow> resolved task" where
  "resolve_inputs ev rq =
     bind (if deployEdgeFunctions (supabase rq)
           then call Call_listEdgeFunctionSlugs (listEdgeFunctionSlugs ev)
           else unit_task [])
       (\<lambda>localEdgeFunctionSlugs.
          if needsManagementApi rq (initial_resolved ev rq localEdgeFunctionSlugs) \<and>
             (resolvedAccessToken (initial_resolved ev rq localEdgeFunctionSlugs) = [] \<or>
              resolvedProjectRef (initial_resolved ev rq localEdgeFunctionSlugs) = [])
          then fail_with
                 (if resolvedAccessToken (initial_resolved ev rq localEdgeFunctionSlugs) = []
                  then msg_no_access_token else msg_no_project_ref)
          else unit_task (initial_resolved ev rq localEdgeFunctionSlugs))"

text \<open>Lines 206 to 220: the keys.\<close>

definition resolve_keys ::
  "collaborators \<Rightarrow> resolved \<Rightarrow> resolved_secrets \<Rightarrow> resolved_secrets task" where
  "resolve_keys ev c k =
     seq (log (Log_resolvendo_chaves (needsKeys c)))
       (if needsKeys c then
          bind (call (Call_resolveSupabaseApiKeys (resolvedProjectRef c) (resolvedAccessToken c))
                  (resolveSupabaseApiKeys ev (resolvedProjectRef c) (resolvedAccessToken c)))
            (\<lambda>keys. case keys of
                 Keys_failed \<Rightarrow> fail_with msg_keys_failed
               | Keys_ok pk sk \<Rightarrow>
                   seq (log (Log_chaves_obtidas (take 20 pk)))
                     (unit_task (k\<lparr>resolvedAnonKey := pk, resolvedServiceRoleKey := sk\<rparr>)))
        else unit_task k)"

text \<open>Lines 224 to 237: the database URL.\<close>

definition resolve_db ::
  "collaborators \<Rightarrow> resolved \<Rightarrow> resolved_secrets \<Rightarrow> resolved_secrets task" where
  "resolve_db ev c k =
     seq (log (Log_resolvendo_db_url (needsDb c)))
       (if needsDb c then
          bind (call (Call_resolveSupabaseDbUrlViaCliLoginRole
                        (resolvedProjectRef c) (resolvedAccessToken c))
                  (resolveSupabaseDbUrlViaCliLoginRole ev
                        (resolvedProjectRef c) (resolvedAccessToken c)))
            (\<lambda>db. case db of
                 Db_failed \<Rightarrow> fail_with msg_db_failed
               | Db_ok u \<Rightarrow>
                   bind (eval (url_hostname ev (replace_first ''postgresql://'' ''http://'' u)))
                     (\<lambda>host. seq (log (Log_db_url_obtida host))
                                (unit_task (k\<lparr>resolvedDbUrl := u\<rparr>))))
        else unit_task k)"

definition project_envs :: "RunData \<Rightarrow> resolved_secrets \<Rightarrow> env_entry list" where
  "project_envs rq k =
     [(''NEXT_PUBLIC_SUPABASE_URL'', url (supabase rq), targets (vercel rq)),
      (''NEXT_PUBLIC_SUPABASE_ANON_KEY'', resolvedAnonKey k, targets (vercel rq)),
      (''SUPABASE_SERVICE_ROLE_KEY'', resolvedServiceRoleKey k, targets (vercel rq)),
      (''INSTALLER_ENABLED'', ''false'', targets (vercel rq))]"

text \<open>Lines 241 to 252: the environment variables of the Vercel project.\<close>

definition configure_vercel ::
  "collaborators \<Rightarrow> RunData \<Rightarrow> resolved_secrets \<Rightarrow> unit task" where
  "configure_vercel ev rq k =
     seq (log Log_configurando_vercel)
         (call (Call_upsertProjectEnvs (token (vercel rq)) (projectId (vercel rq))
                  (project_envs rq k) (teamId_or_undefined rq))
               (upsertProjectEnvs ev (token (vercel rq)) (projectId (vercel rq))
                  (project_envs rq k) (teamId_or_undefined rq)))"

text \<open>Phase 1, lines 202 to 254.\<close>

definition phase_coordinates ::
  "collaborators \<Rightarrow> RunData \<Rightarrow> resolved \<Rightarrow> resolved_secrets task" where
  "phase_coordinates ev rq c =
     seq (log Log_phase1)
    (seq (sendPhase rq coordinates 5)
    (bind (resolve_keys ev c (initial_secrets rq)) (\<lambda>k1.
     seq (sendPhase rq coordinates 10)
    (bind (resolve_db ev c k1) (\<lambda>k2.
     seq (sendPhase rq coordinates 15)
    (seq (configure_vercel ev rq k2)
    (seq (sendPhase rq coordinates 20)
         (unit_task k2))))))))"

text \<open>Phase 2, lines 256 to 278.\<close>

definition phase_signal :: "collaborators \<Rightarrow> RunData \<Rightarrow> resolved \<Rightarrow> unit task" where
  "phase_signal ev rq c =
     seq (log Log_phase2)
       (if \<not> includes_step (skippedSteps rq) ''wait_project'' then
          seq (sendPhase rq signal 25)
         (seq (if resolvedAccessToken c \<noteq> [] \<and> resolvedProjectRef c \<noteq> [] then
                 bind (call (Call_waitForSupabaseProjectReady
                               (resolvedAccessToken c) (resolvedProjectRef c) 210000 4000)
                         (waitForSupabaseProjectReady ev
                               (resolvedAccessToken c) (resolvedProjectRef c) 210000 4000))
                   (\<lambda>ready. if \<not> ready then fail_with msg_not_ready else unit_task ())
               else unit_task ())
              (sendPhase rq signal 35))
        else log Console_skipping_wait_project)"

text \<open>Phase 3, lines 280 to 292.\<close>

definition phase_station ::
  "collaborators \<Rightarrow> RunData \<Rightarrow> resolved_secrets \<Rightarrow> unit task" where
  "phase_station ev rq k =
     seq (log Log_phase3)
       (if \<not> includes_step (skippedSteps rq) ''migrations'' then
          seq (sendPhase rq station 40)
         (seq (log Log_executando_migrations)
         (seq (call (Call_runSchemaMigration (resolvedDbUrl k))
                    (runSchemaMigration ev (resolvedDbUrl k)))
         (seq (log Log_migrations_concluidas)
              (sendPhase rq station 55))))
        else log Console_skipping_migrations)"

text \<open>Phase 4, lines 294 to 323. The deploy results are stored and never read.\<close>

definition phase_comms ::
  "collaborators \<Rightarrow> RunData \<Rightarrow> resolved \<Rightarrow> resolved_secrets \<Rightarrow> unit task" where
  "phase_comms ev rq c k =
     seq (log Log_phase4)
    (seq (sendPhase rq comms 60)
    (seq (if deployEdgeFunctions (supabase rq) \<and> hasLocalEdgeFunctions c then
            seq (log Log_configurando_secrets)
           (bind (call (Call_setSupabaseEdgeFunctionSecrets
                          (resolvedProjectRef c) (resolvedAccessToken c) (url (supabase rq))
                          (resolvedAnonKey k) (resolvedServiceRoleKey k))
                       (setSupabaseEdgeFunctionSecrets ev
                          (resolvedProjectRef c) (resolvedAccessToken c) (url (supabase rq))
                          (resolvedAnonKey k) (resolvedServiceRoleKey k)))
              (\<lambda>secrets.
                 if \<not> secrets then fail_with msg_secrets_failed
                 else seq (sendPhase rq comms 65)
                     (seq (log Log_deployando)
                     (bind (call (Call_deployAllSupabaseEdgeFunctions
                                    (resolvedProjectRef c) (resolvedAccessToken c))
                                 (deployAllSupabaseEdgeFunctions ev
                                    (resolvedProjectRef c) (resolvedAccessToken c)))
                        (\<lambda>functions. unit_task ())))))
          else unit_task ())
         (sendPhase rq comms 75)))"

text \<open>Phase 5, lines 325 to 348.\<close>

definition phase_contact ::
  "collaborators \<Rightarrow> RunData \<Rightarrow> resolved_secrets \<Rightarrow> unit task" where
  "phase_contact ev rq k =
     seq (log Log_phase5)
       (if \<not> includes_step (skippedSteps rq) ''bootstrap'' then
          seq (sendPhase rq contact 80)
         (seq (log Log_criando_organizacao)
         (bind (call (Call_bootstrapInstance (url (supabase rq)) (resolvedServiceRoleKey k)
                        (companyName (admin rq)) (email (admin rq)) (password (admin rq)))
                     (bootstrapInstance ev (url (supabase rq)) (resolvedServiceRoleKey k)
                        (companyName (admin rq)) (email (admin rq)) (password (admin rq))))
            (\<lambda>bootstrap.
               if \<not> bootstrap then fail_with msg_bootstrap_failed
               else sendPhase rq contact 90)))
        else log Console_skipping_bootstrap)"

text \<open>Phase 6, lines 350 to 365: the redeploy sits in a \<open>try\<close> with an empty \<open>catch\<close>.\<close>

definition redeploy_call :: "RunData \<Rightarrow> collaborator_call" where
  "redeploy_call rq =
     Call_triggerProjectRedeploy (token (vercel rq)) (projectId (vercel rq))
       (teamId_or_undefined rq)"

definition phase_landing :: "collaborators \<Rightarrow> RunData \<Rightarrow> unit task" where
  "phase_landing ev rq =
     seq (log Log_phase6)
    (seq (sendPhase rq landing 92)
    (seq (try_catch
            (seq (log Log_disparando_redeploy)
                 (call (redeploy_call rq)
                       (triggerProjectRedeploy ev (token (vercel rq)) (projectId (vercel rq))
                          (teamId_or_undefined rq))))
            (\<lambda>err. unit_task ()))
         (sendPhase rq landing 98)))"

text \<open>Lines 367 to 370.\<close>

definition phase_complete :: "RunData \<Rightarrow> unit task" where
  "phase_complete rq =
     seq (log Log_complete)
    (seq (sendPhase rq complete 100)
         (sendEvent complete_event))"

text \<open>The body of the outer \<open>try\<close>, lines 172 to 370.\<close>

definition try_block :: "collaborators \<Rightarrow> RunData \<Rightarrow> unit task" where
  "try_block ev rq =
     bind (resolve_inputs ev rq) (\<lambda>c.
     bind (phase_coordinates ev rq c) (\<lambda>k.
     seq (phase_signal ev rq c)
    (seq (phase_station ev rq k)
    (seq (phase_comms ev rq c k)
    (seq (phase_contact ev rq k)
    (seq (phase_landing ev rq)
         (phase_complete rq)))))))"

text \<open>
  The task, lines 161 to 378:
  \<open>log(...); try { ... } catch (err) { await sendEvent(error) } finally { await writer.close() }\<close>
\<close>

definition background_task :: "collaborators \<Rightarrow> RunData \<Rightarrow> unit task" where
  "background_task ev rq =
     seq (log (Log_inicio (skippedSteps rq)))
       (try_finally
          (try_catch (try_block ev rq)
             (\<lambda>err. sendEvent (error_event (exception_message err))))
          writer_close)"

text \<open>
  Before the task starts, \<open>POST\<close> logs the Skip Set when it is not empty (lines 137 to
  139). A run is the task started on that log; the promise of the task is fulfilled
  unless an exception leaves it.
\<close>

definition console_prelude :: "RunData \<Rightarrow> trace" where
  "console_prelude rq =
     (if length (skippedSteps rq) > 0 then [Log (Console_skipping_steps (skippedSteps rq))]
      else [])"

definition run :: "collaborators \<Rightarrow> RunData \<Rightarrow> unit completion \<times> trace" where
  "run ev rq = background_task ev rq (console_prelude rq)"

definition run_trace :: "collaborators \<Rightarrow> RunData \<Rightarrow> trace" where
  "run_trace ev rq = snd (run ev rq)"

text \<open>The trace on which the \<open>try\<close> block starts.\<close>

definition task_start :: "RunData \<Rightarrow> trace" where
  "task_start rq = console_prelude rq @ [Log (Log_inicio (skippedSteps rq))]"

datatype promise = Fulfilled | Rejected thrown

definition settled :: "collaborators \<Rightarrow> RunData \<Rightarrow> promise" where
  "settled ev rq = (case fst (run ev rq) of Exc e \<Rightarrow> Rejected e | _ \<Rightarrow> Fulfilled)"


section \<open>Observations on a trace\<close>

fun events :: "trace \<Rightarrow> StreamEvent list" where
  "events [] = []"
| "events (Emit e # t) = e # events t"
| "events (a # t) = events t"

fun calls :: "trace \<Rightarrow> collaborator_call list" where
  "calls [] = []"
| "calls (Call c # t) = c # calls t"
| "calls (a # t) = calls t"

fun logs :: "trace \<Rightarrow> log_line list" where
  "logs [] = []"
| "logs (Log l # t) = l # logs t"
| "logs (a # t) = logs t"

definition closes :: "trace \<Rightarrow> nat" where
  "closes t = count_list t Close"

text \<open>The progress values and the phase identifiers that a list of events carries.\<close>

fun progresses :: "StreamEvent list \<Rightarrow> int list" where
  "progresses [] = []"
| "progresses (e # es) = (case progress e of None \<Rightarrow> progresses es | Some p \<Rightarrow> p # progresses es)"

fun phases :: "StreamEvent list \<Rightarrow> PhaseId list" where
  "phases [] = []"
| "phases (e # es) = (case phase e of None \<Rightarrow> phases es | Some ph \<Rightarrow> ph # phases es)"



section \<open>Sample requests and collaborators\<close>

definition request_full :: RunData where
  "request_full =
     \<lparr>installerToken = None,
      vercel = \<lparr>token = ''vercel-token'', teamId = None, projectId = ''prj_1'',
                 targets = [production]\<rparr>,
      supabase = \<lparr>url = ''https://abcd.supabase.co'', anonKey = Some ''anon-key'',
                   serviceRoleKey = Some ''service-key'', dbUrl = Some ''postgresql://db'',
                   accessToken = Some ''sbp_token'', projectRef = Some ''abcd'',
                   deployEdgeFunctions = False\<rparr>,
      admin = \<lparr>companyName = ''Acme Corp'', email = ''ops@acme.io'', password = ''secret1''\<rparr>,
      healthCheck = None\<rparr>"

definition collaborators_ok :: collaborators where
  "collaborators_ok =
     \<lparr>extractProjectRefFromSupabaseUrl = (\<lambda>u. Some ''abcd''),
      listEdgeFunctionSlugs = Returns [''hello''],
      resolveSupabaseApiKeys = (\<lambda>p a. Returns (Keys_ok ''anon-key'' ''service-key'')),
      resolveSupabaseDbUrlViaCliLoginRole = (\<lambda>p a. Returns (Db_ok ''postgresql://db'')),
      url_hostname = (\<lambda>u. Returns ''db''),
      upsertProjectEnvs = (\<lambda>t p es team. Returns ()),
      waitForSupabaseProjectReady = (\<lambda>a p t i. Returns True),
      runSchemaMigration = (\<lambda>u. Returns ()),
      setSupabaseEdgeFunctionSecrets = (\<lambda>p a u k s. Returns True),
      deployAllSupabaseEdgeFunctions = (\<lambda>p a. Returns []),
      bootstrapInstance = (\<lambda>u k c e p. Returns True),
      triggerProjectRedeploy = (\<lambda>t p team. Returns ())\<rparr>"

definition request_skip_wait :: RunData where
  "request_skip_wait =
     request_full\<lparr>healthCheck :=
       Some \<lparr>skipWaitProject = True, skipWaitStorage = False, skipMigrations = False,
             skipBootstrap = False, estimatedSeconds = 120\<rparr>\<rparr>"

definition request_no_token :: RunData where
  "request_no_token =
     request_full\<lparr>supabase := (supabase request_full)\<lparr>anonKey := None, accessToken := None\<rparr>\<rparr>"

definition refused_message :: string where
  "refused_message = ''connect ECONNREFUSED 10.0.0.5:5432''"

definition collaborators_migration_throws :: collaborators where
  "collaborators_migration_throws =
     collaborators_ok\<lparr>runSchemaMigration := (\<lambda>u. Throws (Error_instance refused_message))\<rparr>"

definition hint_skip_bootstrap :: healthCheck_data where
  "hint_skip_bootstrap =
     \<lparr>skipWaitProject = False, skipWaitStorage = False, skipMigrations = False,
      skipBootstrap = True, estimatedSeconds = 30\<rparr>"

definition request_skip_bootstrap :: RunData where
  "request_skip_bootstrap = request_full\<lparr>healthCheck := Some hint_skip_bootstrap\<rparr>"

definition request_deploy :: RunData where
  "request_deploy =
     request_full\<lparr>supabase := (supabase request_full)\<lparr>deployEdgeFunctions := True\<rparr>\<rparr>"

definition redeploy_message :: string where
  "redeploy_message = ''Vercel API error 500''"

definition collaborators_redeploy_throws :: collaborators where
  "collaborators_redeploy_throws =
     collaborators_ok\<lparr>triggerProjectRedeploy :=
       (\<lambda>t p team. Throws (Error_instance redeploy_message))\<rparr>"


section \<open>The route handlers\<close>

text \<open>
  The three installer routes share their first steps: the origin check, the
  \<open>INSTALLER_ENABLED\<close> flag, the validation of the payload and the installer token. A
  request is modelled by what \<open>isAllowedOrigin(req)\<close> answers and by the result of
  \<open>Schema.safeParse\<close> on its body (\<open>None\<close> when \<open>parsed.success\<close> is false); the process
  environment by the two variables the routes read.
\<close>

record process_env =
  INSTALLER_ENABLED :: "string option"
  INSTALLER_TOKEN :: "string option"

record 'd request =
  isAllowedOrigin :: bool
  parsed :: "'d option"

typedecl organization

typedecl project_fields

record project =
  ref :: string
  other_fields :: project_fields

text \<open>The bodies of the JSON responses.\<close>

datatype body =
    Error_body string
  | Invalid_payload
  | Error_status_body string "nat option"
  | Ok_body
  | Projects_body organization nat "(project \<times> string) list"

text \<open>
  What a handler gives: a JSON response with its status, the event stream of a run, or an
  exception that leaves the handler.
\<close>

datatype route_result =
    Response nat body
  | Event_stream "unit completion \<times> trace"
  | Unhandled thrown

definition msg_forbidden :: string where
  "msg_forbidden = ''Forbidden''"

definition msg_installer_disabled :: string where
  "msg_installer_disabled = ''Installer disabled''"

definition msg_invalid_token :: string where
  "msg_invalid_token = ''Invalid installer token''"

definition msg_confirmation_mismatch :: string where
  "msg_confirmation_mismatch =
     ''Confirmation mismatch. Type the project ref exactly to confirm deletion.''"

text \<open>
  \<open>expectedToken && parsed.data.installerToken !== expectedToken\<close>: an unset or empty
  expected token is falsy.
\<close>

definition token_rejected :: "process_env \<Rightarrow> string option \<Rightarrow> bool" where
  "token_rejected penv tok \<longleftrightarrow>
     (case INSTALLER_TOKEN penv of
        None \<Rightarrow> False
      | Some expectedToken \<Rightarrow> expectedToken \<noteq> [] \<and> tok \<noteq> Some expectedToken)"

text \<open>\<open>res.status || 500\<close>\<close>

definition status_or_500 :: "nat option \<Rightarrow> nat" where
  "status_or_500 st = (case st of None \<Rightarrow> 500 | Some n \<Rightarrow> if n = 0 then 500 else n)"

subsection \<open>\<open>POST\<close> of the run-stream route, lines 108 to 387\<close>

definition POST_run_stream ::
  "process_env \<Rightarrow> RunData request \<Rightarrow> collaborators \<Rightarrow> route_result" where
  "POST_run_stream penv req ev =
     (if \<not> isAllowedOrigin req then Response 403 (Error_body msg_forbidden)
      else if INSTALLER_ENABLED penv = Some ''false''
      then Response 403 (Error_body msg_installer_disabled)
      else case parsed req of
        None \<Rightarrow> Response 400 Invalid_payload
      | Some d \<Rightarrow>
          if token_rejected penv (installerToken d)
          then Response 403 (Error_body msg_invalid_token)
          else Event_stream (run ev d))"

subsection \<open>\<open>POST\<close> of the project-delete route, lines 408 to 438\<close>

record DeleteData =
  installerToken :: "string option"
  accessToken :: string
  projectRef :: string
  confirmRef :: string

datatype delete_result = Delete_ok | Delete_failed string "nat option"

datatype route_call =
    Call_deleteSupabaseProject string string
  | Call_getSupabaseOrganization string string
  | Call_listSupabaseOrganizationProjects string string "string list option" nat

text \<open>The handler gives its result and the collaborator calls it made.\<close>

definition POST_delete ::
  "process_env \<Rightarrow> DeleteData request \<Rightarrow> (string \<Rightarrow> string \<Rightarrow> delete_result outcome) \<Rightarrow>
   route_result \<times> route_call list" where
  "POST_delete penv req deleteSupabaseProject =
     (if \<not> isAllowedOrigin req then (Response 403 (Error_body msg_forbidden), [])
      else if INSTALLER_ENABLED penv = Some ''false''
      then (Response 403 (Error_body msg_installer_disabled), [])
      else case parsed req of
        None \<Rightarrow> (Response 400 Invalid_payload, [])
      | Some d \<Rightarrow>
          if token_rejected penv (installerToken d)
          then (Response 403 (Error_body msg_invalid_token), [])
          else if trim (confirmRef d) \<noteq> trim (projectRef d)
          then (Response 400 (Error_body msg_confirmation_mismatch), [])
          else
            (case deleteSupabaseProject (trim (accessToken d)) (trim (projectRef d)) of
               Throws e \<Rightarrow> Unhandled e
             | Returns Delete_ok \<Rightarrow> Response 200 Ok_body
             | Returns (Delete_failed err st) \<Rightarrow>
                 Response (status_or_500 st) (Error_status_body err st),
             [Call_deleteSupabaseProject (trim (accessToken d)) (trim (projectRef d))]))"

text \<open>Sample requests of the route.\<close>

definition delete_always_ok :: "string \<Rightarrow> string \<Rightarrow> delete_result outcome" where
  "delete_always_ok tok r = Returns Delete_ok"

definition request_delete_padded :: "DeleteData request" where
  "request_delete_padded =
     \<lparr>isAllowedOrigin = True,
      parsed = Some \<lparr>installerToken = None, accessToken = ''sbp_token'', projectRef = ''abcd'',
                     confirmRef = ''abcd ''\<rparr>\<rparr>"

definition request_delete_mismatch :: "DeleteData request" where
  "request_delete_mismatch =
     \<lparr>isAllowedOrigin = True,
      parsed = Some \<lparr>installerToken = Some ''guess'', accessToken = ''sbp_token'',
                     projectRef = ''abcd'', confirmRef = ''abce''\<rparr>\<rparr>"

subsection \<open>\<open>POST\<close> of the project-list route\<close>

record ListData =
  installerToken :: "string option"
  accessToken :: string
  organizationSlug :: string
  statuses :: "string list option"

datatype organization_result = Organization_ok organization | Organization_failed string "nat option"

datatype projects_result = Projects_ok "project list" | Projects_failed string "nat option"

record list_collaborators =
  getSupabaseOrganization :: "string \<Rightarrow> string \<Rightarrow> organization_result outcome"
  listSupabaseOrganizationProjects ::
    "string \<Rightarrow> string \<Rightarrow> string list option \<Rightarrow> nat \<Rightarrow> projects_result outcome"

text \<open>\<open>`https://${p.ref}.supabase.co`\<close>\<close>

definition supabaseUrl :: "project \<Rightarrow> string" where
  "supabaseUrl p = ''https://'' @ ref p @ ''.supabase.co''"

definition list_projects ::
  "list_collaborators \<Rightarrow> string \<Rightarrow> string \<Rightarrow> string list option \<Rightarrow>
   route_result \<times> route_call list" where
  "list_projects lc tok slug sts =
     (case getSupabaseOrganization lc tok slug of
        Throws e \<Rightarrow> (Unhandled e, [Call_getSupabaseOrganization tok slug])
      | Returns (Organization_failed err st) \<Rightarrow>
          (Response (status_or_500 st) (Error_status_body err st),
           [Call_getSupabaseOrganization tok slug])
      | Returns (Organization_ok org) \<Rightarrow>
          (case listSupabaseOrganizationProjects lc tok slug sts 200 of
             Throws e \<Rightarrow> Unhandled e
           | Returns (Projects_failed err st) \<Rightarrow>
               Response (status_or_500 st) (Error_status_body err st)
           | Returns (Projects_ok ps) \<Rightarrow>
               Response 200 (Projects_body org (length ps) (map (\<lambda>p. (p, supabaseUrl p)) ps)),
           [Call_getSupabaseOrganization tok slug,
            Call_listSupabaseOrganizationProjects tok slug sts 200]))"

definition POST_list ::
  "process_env \<Rightarrow> ListData request \<Rightarrow> list_collaborators \<Rightarrow> route_result \<times> route_call list" where
  "POST_list penv req lc =
     (if \<not> isAllowedOrigin req then (Response 403 (Error_body msg_forbidden), [])
      else if INSTALLER_ENABLED penv = Some ''false''
      then (Response 403 (Error_body msg_installer_disabled), [])
      else case parsed req of
        None \<Rightarrow> (Response 400 Invalid_payload, [])
      | Some d \<Rightarrow>
          if token_rejected penv (installerToken d)
          then (Response 403 (Error_body msg_invalid_token), [])
          else list_projects lc (trim (accessToken d)) (trim (organizationSlug d)) (statuses d))"

text \<open>Sample inputs of the routes.\<close>

definition env_no_token :: process_env where
  "env_no_token = \<lparr>INSTALLER_ENABLED = None, INSTALLER_TOKEN = None\<rparr>"

definition env_with_token :: process_env where
  "env_with_token = \<lparr>INSTALLER_ENABLED = None, INSTALLER_TOKEN = Some ''s3cret''\<rparr>"

definition request_list_guess :: "ListData request" where
  "request_list_guess =
     \<lparr>isAllowedOrigin = True,
      parsed = Some \<lparr>installerToken = Some ''guess'', accessToken = ''sbp_token'',
                     organizationSlug = ''acme'', statuses = None\<rparr>\<rparr>"

definition list_org_missing :: list_collaborators where
  "list_org_missing =
     \<lparr>getSupabaseOrganization = (\<lambda>tok slug. Returns (Organization_failed ''Not found'' (Some 404))),
      listSupabaseOrganizationProjects = (\<lambda>tok slug sts n. Returns (Projects_ok []))\<rparr>"

definition request_run_guess :: "RunData request" where
  "request_run_guess =
     \<lparr>isAllowedOrigin = True,
      parsed = Some (request_no_token\<lparr>RunData.installerToken := Some ''guess''\<rparr>)\<rparr>"

section \<open>Assertions on traces\<close>

definition hoare ::
  "(trace \<Rightarrow> bool) \<Rightarrow> 'a task \<Rightarrow> ('a \<Rightarrow> trace \<Rightarrow> bool) \<Rightarrow> (trace \<Rightarrow> bool) \<Rightarrow> (thrown \<Rightarrow> trace \<Rightarrow> bool) \<Rightarrow> bool" where
  "hoare P m Q R E \<longleftrightarrow>
     (\<forall>s. P s \<longrightarrow> (case m s of (Val v, s') \<Rightarrow> Q v s' | (Ret, s') \<Rightarrow> R s' | (Exc e, s') \<Rightarrow> E e s'))"

fun phase_of_progress :: "int \<Rightarrow> PhaseId" where
  "phase_of_progress p =
     (if p \<le> 20 then coordinates else if p \<le> 35 then signal else if p \<le> 55 then station
      else if p \<le> 75 then comms else if p \<le> 90 then contact else if p \<le> 98 then landing
      else complete)"

definition phase_ok :: "StreamEvent \<Rightarrow> bool" where
  "phase_ok e \<longleftrightarrow>
     type e = T_phase \<and>
     (case phase e of None \<Rightarrow> False
      | Some ph \<Rightarrow> (case progress e of None \<Rightarrow> False
                   | Some p \<Rightarrow> 0 \<le> p \<and> (p \<le> 98 \<or> p = 100) \<and> ph = phase_of_progress p))"

definition progs :: "trace \<Rightarrow> int list" where
  "progs s = progresses (events s)"

definition quiet :: "int \<Rightarrow> trace \<Rightarrow> bool" where
  "quiet hi s \<longleftrightarrow>
     Close \<notin> set s \<and> (\<forall>e\<in>set (events s). phase_ok e) \<and>
     (\<forall>p\<in>set (progs s). p \<le> hi) \<and> sorted (progs s)"

definition is_error_event :: "StreamEvent \<Rightarrow> bool" where
  "is_error_event e \<longleftrightarrow> (case error e of None \<Rightarrow> False | Some m \<Rightarrow> e = error_event m)"

definition bound :: "nat \<Rightarrow> int" where
  "bound k = (if k = 0 then 0 else if k = 1 then 20 else if k = 2 then 35 else if k = 3 then 55
              else if k = 4 then 75 else if k = 5 then 90 else if k = 6 then 98 else 100)"

definition seen :: "RunData \<Rightarrow> nat \<Rightarrow> PhaseId set" where
  "seen rq k =
     (if 1 \<le> k then {coordinates} else {}) \<union>
     (if 2 \<le> k \<and> \<not> includes_step (skippedSteps rq) ''wait_project'' then {signal} else {}) \<union>
     (if 3 \<le> k \<and> \<not> includes_step (skippedSteps rq) ''migrations'' then {station} else {}) \<union>
     (if 4 \<le> k then {comms} else {}) \<union>
     (if 5 \<le> k \<and> \<not> includes_step (skippedSteps rq) ''bootstrap'' then {contact} else {}) \<union>
     (if 6 \<le> k then {landing} else {}) \<union>
     (if 7 \<le> k then {complete} else {})"

definition staged :: "RunData \<Rightarrow> nat \<Rightarrow> int \<Rightarrow> trace \<Rightarrow> bool" where
  "staged rq k hi s \<longleftrightarrow> quiet hi s \<and> set (phases (events s)) = seen rq k"

definition at_stage :: "RunData \<Rightarrow> nat \<Rightarrow> trace \<Rightarrow> bool" where
  "at_stage rq k s \<longleftrightarrow> staged rq k (bound k) s"

definition stopped :: "RunData \<Rightarrow> trace \<Rightarrow> bool" where
  "stopped rq s \<longleftrightarrow> (\<exists>k. at_stage rq k s)"

fun ends_handled :: "(trace \<Rightarrow> bool) \<Rightarrow> trace \<Rightarrow> bool" where
  "ends_handled P (Close # Emit e # rest) = (is_error_event e \<and> P (rev rest))"
| "ends_handled P _ = False"

definition handled_in :: "RunData \<Rightarrow> trace \<Rightarrow> bool" where
  "handled_in rq s \<longleftrightarrow> ends_handled (stopped rq) (rev s)"

text \<open>The same, with the stage named.\<close>

definition handled_at :: "RunData \<Rightarrow> nat \<Rightarrow> trace \<Rightarrow> bool" where
  "handled_at rq k s \<longleftrightarrow> ends_handled (at_stage rq k) (rev s)"

text \<open>The end of phase 6, and the end of a run that completes.\<close>

fun ends_landed :: "RunData \<Rightarrow> trace \<Rightarrow> bool" where
  "ends_landed rq (Emit e98 # Call c # Log l # Emit e92 # Log l6 # rest) =
     (e98 = phase_event rq landing 98 \<and> c = redeploy_call rq \<and> l = Log_disparando_redeploy \<and>
      e92 = phase_event rq landing 92 \<and> l6 = Log_phase6 \<and> at_stage rq 5 (rev rest))"
| "ends_landed rq _ = False"

definition landed :: "RunData \<Rightarrow> trace \<Rightarrow> bool" where
  "landed rq s \<longleftrightarrow> ends_landed rq (rev s)"

fun ends_completed :: "RunData \<Rightarrow> trace \<Rightarrow> bool" where
  "ends_completed rq (Emit c # Emit p # Log l # rest) =
     (c = complete_event \<and> p = phase_event rq complete 100 \<and> l = Log_complete \<and>
      landed rq (rev rest))"
| "ends_completed rq _ = False"

definition completed :: "RunData \<Rightarrow> trace \<Rightarrow> bool" where
  "completed rq s \<longleftrightarrow> ends_completed rq (rev s)"

definition preserves :: "(trace \<Rightarrow> bool) \<Rightarrow> action \<Rightarrow> bool" where
  "preserves I a \<longleftrightarrow> (\<forall>s. I s \<longrightarrow> I (s @ [a]))"

definition stable :: "(trace \<Rightarrow> bool) \<Rightarrow> 'a task \<Rightarrow> bool" where
  "stable I m \<longleftrightarrow> hoare I m (\<lambda>_. I) I (\<lambda>_. I)"

definition inert :: "(trace \<Rightarrow> bool) \<Rightarrow> bool" where
  "inert I \<longleftrightarrow>
     (\<forall>l. preserves I (Log l)) \<and> (\<forall>m. preserves I (Emit (error_event m))) \<and> preserves I Close"

definition calls_ok :: "(collaborator_call \<Rightarrow> bool) \<Rightarrow> trace \<Rightarrow> bool" where
  "calls_ok P s \<longleftrightarrow> (\<forall>c\<in>set (calls s). P c)"

definition has_local :: "collaborators \<Rightarrow> RunData \<Rightarrow> bool" where
  "has_local ev rq \<longleftrightarrow>
     deployEdgeFunctions (supabase rq) \<and>
     (case listEdgeFunctionSlugs ev of Returns l \<Rightarrow> l \<noteq> [] | Throws e \<Rightarrow> False)"

fun is_bootstrap_call :: "collaborator_call \<Rightarrow> bool" where
  "is_bootstrap_call (Call_bootstrapInstance u sk c e p) = True"
| "is_bootstrap_call _ = False"

fun is_deployer_call :: "collaborator_call \<Rightarrow> bool" where
  "is_deployer_call (Call_setSupabaseEdgeFunctionSecrets p a u ak sk) = True"
| "is_deployer_call (Call_deployAllSupabaseEdgeFunctions p a) = True"
| "is_deployer_call _ = False"

fun is_redeploy_call :: "collaborator_call \<Rightarrow> bool" where
  "is_redeploy_call (Call_triggerProjectRedeploy t p team) = True"
| "is_redeploy_call _ = False"

fun is_deploy_call :: "collaborator_call \<Rightarrow> bool" where
  "is_deploy_call (Call_deployAllSupabaseEdgeFunctions p a) = True"
| "is_deploy_call _ = False"

fun secrets_succeeded :: "collaborators \<Rightarrow> collaborator_call \<Rightarrow> bool" where
  "secrets_succeeded ev (Call_setSupabaseEdgeFunctionSecrets p a u ak sk) =
     (setSupabaseEdgeFunctionSecrets ev p a u ak sk = Returns True)"
| "secrets_succeeded ev _ = False"

definition secrets_done :: "collaborators \<Rightarrow> trace \<Rightarrow> bool" where
  "secrets_done ev s \<longleftrightarrow> (\<exists>c\<in>set (calls s). secrets_succeeded ev c)"

fun deploy_action :: "action \<Rightarrow> bool" where
  "deploy_action (Call c) = is_deploy_call c"
| "deploy_action _ = False"

fun deploy_guarded :: "collaborators \<Rightarrow> trace \<Rightarrow> trace \<Rightarrow> bool" where
  "deploy_guarded ev pre [] = True"
| "deploy_guarded ev pre (a # t) =
     ((deploy_action a \<longrightarrow> secrets_done ev pre) \<and> deploy_guarded ev (pre @ [a]) t)"

fun adjacent :: "'a \<Rightarrow> 'a \<Rightarrow> 'a list \<Rightarrow> bool" where
  "adjacent a b (x # y # ys) = ((x = a \<and> y = b) \<or> adjacent a b (y # ys))"
| "adjacent a b _ = False"

definition before_comms :: "RunData \<Rightarrow> trace \<Rightarrow> bool" where
  "before_comms rq s \<longleftrightarrow> phase_event rq comms 60 \<notin> set (events s)"

definition after_comms :: "RunData \<Rightarrow> trace \<Rightarrow> bool" where
  "after_comms rq s \<longleftrightarrow>
     adjacent (phase_event rq comms 60) (phase_event rq comms 75) (events s)"

definition comms_advanced :: "RunData \<Rightarrow> trace \<Rightarrow> bool" where
  "comms_advanced rq s \<longleftrightarrow>
     (phase_event rq comms 60 \<in> set (events s) \<longrightarrow>
      adjacent (phase_event rq comms 60) (phase_event rq comms 75) (events s))"

definition no_redeploy :: "trace \<Rightarrow> bool" where
  "no_redeploy s \<longleftrightarrow> calls_ok (\<lambda>c. \<not> is_redeploy_call c) s"


section \<open>The stages of the run\<close>

lemma hoare_bind:
  assumes "hoare P m Q R E" and "\<And>v. hoare (Q v) (f v) Q' R E"
  shows "hoare P (bind m f) Q' R E"
  using assms unfolding hoare_def bind_def
  by (fastforce split: prod.splits completion.splits)

lemma hoare_seq:
  assumes "hoare P m (\<lambda>_. P') R E" and "hoare P' n Q R E"
  shows "hoare P (seq m n) Q R E"
  unfolding seq_def using assms by (auto intro: hoare_bind)

lemma hoare_weaken:
  assumes "hoare P m Q R E" and "\<And>s. P' s \<Longrightarrow> P s" and "\<And>v s. Q v s \<Longrightarrow> Q' v s"
    and "\<And>s. R s \<Longrightarrow> R' s" and "\<And>e s. E e s \<Longrightarrow> E' e s"
  shows "hoare P' m Q' R' E'"
  using assms unfolding hoare_def
  by (fastforce split: prod.splits completion.splits)

lemma events_append [simp]: "events (s @ t) = events s @ events t"
  by (induction s rule: events.induct) auto

lemma progresses_append [simp]: "progresses (es @ fs) = progresses es @ progresses fs"
  by (induction es) (auto split: option.splits)

lemma phases_append [simp]: "phases (es @ fs) = phases es @ phases fs"
  by (induction es) (auto split: option.splits)

lemma progs_append [simp]: "progs (s @ t) = progs s @ progs t"
  by (simp add: progs_def)

lemma progs_simps [simp]:
  "progs [] = []"
  "progs (Emit e # t) = (case progress e of None \<Rightarrow> progs t | Some p \<Rightarrow> p # progs t)"
  "progs (Close # t) = progs t"
  "progs (Call c # t) = progs t"
  "progs (Log l # t) = progs t"
  by (simp_all add: progs_def split: option.splits)

lemma phase_event_sel [simp]:
  "type (phase_event rq ph p) = T_phase"
  "phase (phase_event rq ph p) = Some ph"
  "progress (phase_event rq ph p) = Some p"
  "error (phase_event rq ph p) = None"
  by (simp_all add: phase_event_def)

lemma error_event_sel [simp]:
  "type (error_event m) = T_error"
  "phase (error_event m) = None"
  "progress (error_event m) = None"
  "error (error_event m) = Some m"
  by (simp_all add: error_event_def)

lemma complete_event_sel [simp]:
  "type complete_event = T_complete"
  "phase complete_event = None"
  "progress complete_event = None"
  "error complete_event = None"
  by (simp_all add: complete_event_def)

lemma phase_ok_phase_event [simp]:
  "phase_ok (phase_event rq ph p) \<longleftrightarrow> 0 \<le> p \<and> (p \<le> 98 \<or> p = 100) \<and> ph = phase_of_progress p"
  by (simp add: phase_ok_def)

lemma is_error_event_error_event [simp]: "is_error_event (error_event m)"
  by (simp add: is_error_event_def)


lemmas task_defs = hoare_def bind_def seq_def unit_task_def return_task_def log_def
  sendPhase_def sendEvent_def writer_write_def writer_close_def call_def eval_def fail_with_def
  try_catch_def



lemma ends_handled_mono: "ends_handled P xs \<Longrightarrow> (\<And>s. P s \<Longrightarrow> Q s) \<Longrightarrow> ends_handled Q xs"
  by (induction P xs rule: ends_handled.induct) auto

lemma handled_at_in: "handled_at rq k s \<Longrightarrow> handled_in rq s"
  unfolding handled_at_def handled_in_def
  by (erule ends_handled_mono) (auto simp: stopped_def)

lemma at_stage_stopped: "at_stage rq k s \<Longrightarrow> stopped rq s"
  by (auto simp: stopped_def)

lemma hoare_stage:
  assumes "hoare P m Q (handled_at rq k) (\<lambda>_. at_stage rq k)"
  shows "hoare P m Q (handled_in rq) (\<lambda>_. stopped rq)"
  using assms by (rule hoare_weaken) (auto intro: handled_at_in at_stage_stopped)

lemma seen_simps:
  "seen rq 0 = {}"
  "seen rq (Suc 0) = {coordinates}"
  "seen rq 2 = seen rq 1 \<union> (if includes_step (skippedSteps rq) ''wait_project'' then {} else {signal})"
  "seen rq 3 = seen rq 2 \<union> (if includes_step (skippedSteps rq) ''migrations'' then {} else {station})"
  "seen rq 4 = seen rq 3 \<union> {comms}"
  "seen rq 5 = seen rq 4 \<union> (if includes_step (skippedSteps rq) ''bootstrap'' then {} else {contact})"
  "seen rq 6 = seen rq 5 \<union> {landing}"
  "seen rq 7 = seen rq 6 \<union> {complete}"
  by (simp_all add: seen_def)

lemmas inv_defs = quiet_def sorted_append bound_def

lemmas stage_defs = task_defs at_stage_def staged_def handled_at_def completed_def

lemma stopped_open: "stopped rq s \<Longrightarrow> Close \<notin> set s"
  by (auto simp: stopped_def at_stage_def staged_def quiet_def)

lemma at_stage_open: "at_stage rq k s \<Longrightarrow> Close \<notin> set s"
  by (auto simp: at_stage_def staged_def quiet_def)

lemma stage_resolve_inputs:
  "hoare (at_stage rq 0) (resolve_inputs ev rq) (\<lambda>_. at_stage rq 0) (handled_in rq) (\<lambda>_. stopped rq)"
  unfolding resolve_inputs_def
  by (rule hoare_stage [where k = 0], unfold stage_defs)
     (auto simp: inv_defs seen_simps split: outcome.splits)

lemma staged_log: "hoare (staged rq k hi) (log l) (\<lambda>_. staged rq k hi) R E"
  unfolding stage_defs by (auto simp: inv_defs)

lemma staged_sendPhase_first:
  assumes "hi \<le> p" "0 \<le> p" "p \<le> 98 \<or> p = 100" "ph = phase_of_progress p"
    and "seen rq (Suc k) = insert ph (seen rq k)"
  shows "hoare (staged rq k hi) (sendPhase rq ph p) (\<lambda>_. staged rq (Suc k) p) R E"
  using assms unfolding stage_defs by (auto simp: inv_defs)

lemma staged_sendPhase_again:
  assumes "hi \<le> p" "0 \<le> p" "p \<le> 98 \<or> p = 100" "ph = phase_of_progress p" "ph \<in> seen rq k"
  shows "hoare (staged rq k hi) (sendPhase rq ph p) (\<lambda>_. staged rq k p) R E"
  using assms unfolding stage_defs by (auto simp: inv_defs)

lemma staged_unit: "hoare (staged rq k hi) (unit_task v) (\<lambda>_. staged rq k hi) R E"
  unfolding stage_defs by auto

lemma staged_resolve_keys:
  "hoare (staged rq (Suc 0) 5) (resolve_keys ev c k) (\<lambda>_. staged rq (Suc 0) 5)
     (handled_at rq (Suc 0)) (\<lambda>_. at_stage rq (Suc 0))"
  unfolding resolve_keys_def stage_defs
  by (auto simp: inv_defs seen_simps split: outcome.splits keys_result.splits)

lemma staged_resolve_db:
  "hoare (staged rq (Suc 0) 10) (resolve_db ev c k) (\<lambda>_. staged rq (Suc 0) 10)
     (handled_at rq (Suc 0)) (\<lambda>_. at_stage rq (Suc 0))"
  unfolding resolve_db_def stage_defs
  by (auto simp: inv_defs seen_simps split: outcome.splits db_result.splits)

lemma staged_configure_vercel:
  "hoare (staged rq (Suc 0) 15) (configure_vercel ev rq k) (\<lambda>_. staged rq (Suc 0) 15)
     (handled_at rq (Suc 0)) (\<lambda>_. at_stage rq (Suc 0))"
  unfolding configure_vercel_def stage_defs
  by (auto simp: inv_defs seen_simps split: outcome.splits)

lemma stage_coordinates:
  "hoare (at_stage rq 0) (phase_coordinates ev rq c) (\<lambda>_. at_stage rq 1) (handled_in rq) (\<lambda>_. stopped rq)"
proof -
  have "hoare (staged rq 0 0) (phase_coordinates ev rq c) (\<lambda>_. staged rq (Suc 0) 20)
          (handled_at rq (Suc 0)) (\<lambda>_. at_stage rq (Suc 0))"
    unfolding phase_coordinates_def
    apply (rule hoare_seq [OF staged_log])
    apply (rule hoare_seq [OF staged_sendPhase_first])
         apply (simp_all add: seen_simps) [5]
    apply (rule hoare_bind [OF staged_resolve_keys])
    apply (rule hoare_seq [OF staged_sendPhase_again])
         apply (simp_all add: seen_simps) [5]
    apply (rule hoare_bind [OF staged_resolve_db])
    apply (rule hoare_seq [OF staged_sendPhase_again])
         apply (simp_all add: seen_simps) [5]
    apply (rule hoare_seq [OF staged_configure_vercel])
    apply (rule hoare_seq [OF staged_sendPhase_again])
         apply (simp_all add: seen_simps) [5]
    apply (rule staged_unit)
    done
  moreover have "at_stage rq 0 = staged rq 0 0" "at_stage rq 1 = staged rq (Suc 0) 20"
    by (simp_all add: at_stage_def bound_def fun_eq_iff)
  ultimately have "hoare (at_stage rq 0) (phase_coordinates ev rq c) (\<lambda>_. at_stage rq 1)
          (handled_at rq (Suc 0)) (\<lambda>_. at_stage rq (Suc 0))"
    by metis
  then show ?thesis
    by (rule hoare_stage)
qed

lemma stage_signal:
  "hoare (at_stage rq 1) (phase_signal ev rq c) (\<lambda>_. at_stage rq 2) (handled_in rq) (\<lambda>_. stopped rq)"
  unfolding phase_signal_def
  by (rule hoare_stage [where k = 2], unfold stage_defs)
     (auto simp: inv_defs seen_simps split: outcome.splits)

lemma stage_station:
  "hoare (at_stage rq 2) (phase_station ev rq k) (\<lambda>_. at_stage rq 3) (handled_in rq) (\<lambda>_. stopped rq)"
  unfolding phase_station_def
  by (rule hoare_stage [where k = 3], unfold stage_defs)
     (auto simp: inv_defs seen_simps split: outcome.splits)

lemma stage_comms:
  "hoare (at_stage rq 3) (phase_comms ev rq c k) (\<lambda>_. at_stage rq 4) (handled_in rq) (\<lambda>_. stopped rq)"
  unfolding phase_comms_def
  by (rule hoare_stage [where k = 4], unfold stage_defs)
     (auto simp: inv_defs seen_simps split: outcome.splits)

lemma stage_contact:
  "hoare (at_stage rq 4) (phase_contact ev rq k) (\<lambda>_. at_stage rq 5) (handled_in rq) (\<lambda>_. stopped rq)"
  unfolding phase_contact_def
  by (rule hoare_stage [where k = 5], unfold stage_defs)
     (auto simp: inv_defs seen_simps split: outcome.splits)

lemma stage_landing:
  "hoare (at_stage rq 5) (phase_landing ev rq) (\<lambda>_. landed rq) (\<lambda>_. False) (\<lambda>_ _. False)"
  unfolding phase_landing_def task_defs landed_def
  by (auto simp: at_stage_open split: outcome.splits)

lemma landedD:
  assumes "landed rq s"
  shows "\<exists>s0. s = s0 @ [Log Log_phase6, Emit (phase_event rq landing 92),
                        Log Log_disparando_redeploy, Call (redeploy_call rq),
                        Emit (phase_event rq landing 98)]
           \<and> at_stage rq 5 s0"
proof -
  from assms have "ends_landed rq (rev s)"
    by (simp add: landed_def)
  then obtain rest where
    "rev s = Emit (phase_event rq landing 98) # Call (redeploy_call rq) #
             Log Log_disparando_redeploy # Emit (phase_event rq landing 92) #
             Log Log_phase6 # rest"
    and st: "at_stage rq 5 (rev rest)"
    by (auto elim!: ends_landed.elims(2))
  then have "s = rev rest @ [Log Log_phase6, Emit (phase_event rq landing 92),
                        Log Log_disparando_redeploy, Call (redeploy_call rq),
                        Emit (phase_event rq landing 98)]"
    by (simp add: rev_swap)
  with st show ?thesis by blast
qed

lemma landed_at_stage:
  assumes "landed rq s"
  shows "at_stage rq 6 s"
proof -
  from landedD [OF assms] obtain s0 where
    s: "s = s0 @ [Log Log_phase6, Emit (phase_event rq landing 92),
                  Log Log_disparando_redeploy, Call (redeploy_call rq),
                  Emit (phase_event rq landing 98)]"
    and st: "at_stage rq 5 s0"
    by blast
  from st have "Close \<notin> set s0" "\<forall>e\<in>set (events s0). phase_ok e" "sorted (progs s0)"
    "\<forall>p\<in>set (progs s0). p \<le> 90" "set (phases (events s0)) = seen rq 5"
    by (simp_all add: at_stage_def staged_def quiet_def bound_def)
  then show ?thesis
    unfolding s at_stage_def staged_def quiet_def
    by (simp add: sorted_append bound_def seen_simps) fastforce
qed

lemma stage_complete:
  "hoare (landed rq) (phase_complete rq) (\<lambda>_. completed rq) (\<lambda>_. False) (\<lambda>_ _. False)"
  unfolding phase_complete_def task_defs completed_def
  by (auto dest: landed_at_stage simp: at_stage_open)

lemma hoare_False:
  "hoare P m Q (\<lambda>_. False) (\<lambda>_ _. False) \<Longrightarrow> hoare P m Q R E"
  by (erule hoare_weaken) auto

lemma stage_try_block:
  "hoare (at_stage rq 0) (try_block ev rq) (\<lambda>_. completed rq) (handled_in rq) (\<lambda>_. stopped rq)"
  unfolding try_block_def
  by (intro hoare_bind [OF stage_resolve_inputs] hoare_bind [OF stage_coordinates]
        hoare_seq [OF stage_signal] hoare_seq [OF stage_station] hoare_seq [OF stage_comms]
        hoare_seq [OF stage_contact] hoare_seq [OF hoare_False [OF stage_landing]]
        hoare_False [OF stage_complete])

lemma at_stage_start: "at_stage rq 0 (task_start rq)"
  by (simp add: task_start_def console_prelude_def at_stage_def staged_def quiet_def
      seen_simps bound_def)

lemma run_eq:
  "run ev rq =
     try_finally
       (try_catch (try_block ev rq) (\<lambda>err. sendEvent (error_event (exception_message err))))
       writer_close (task_start rq)"
  by (simp add: run_def background_task_def seq_def bind_def log_def task_start_def)

lemma is_error_eventD: "is_error_event e \<Longrightarrow> \<exists>m. e = error_event m"
  by (auto simp: is_error_event_def split: option.splits)

lemma completedD:
  assumes "completed rq s"
  shows "\<exists>s0. s = s0 @ [Log Log_complete, Emit (phase_event rq complete 100), Emit complete_event]
           \<and> landed rq s0"
proof -
  from assms have "ends_completed rq (rev s)"
    by (simp add: completed_def)
  then obtain rest where
    "rev s = Emit complete_event # Emit (phase_event rq complete 100) # Log Log_complete # rest"
    and st: "landed rq (rev rest)"
    by (auto elim!: ends_completed.elims(2))
  then have "s = rev rest @ [Log Log_complete, Emit (phase_event rq complete 100), Emit complete_event]"
    by (simp add: rev_swap)
  with st show ?thesis by blast
qed

lemma handled_inD:
  assumes "handled_in rq s"
  shows "\<exists>s0 m. s = s0 @ [Emit (error_event m), Close] \<and> stopped rq s0"
proof -
  from assms have "ends_handled (stopped rq) (rev s)"
    by (simp add: handled_in_def)
  then obtain e rest where "rev s = Close # Emit e # rest"
    and e: "is_error_event e" and st: "stopped rq (rev rest)"
    by (auto elim!: ends_handled.elims(2))
  then have "s = rev rest @ [Emit e, Close]"
    by (simp add: rev_swap)
  with e st show ?thesis by (auto dest!: is_error_eventD)
qed

text \<open>How a run ends: the three exits of the task.\<close>

lemma run_cases:
  obtains
    (success) s0 where
      "try_block ev rq (task_start rq) =
         (Val (), s0 @ [Log Log_complete, Emit (phase_event rq complete 100), Emit complete_event])"
      "at_stage rq 6 s0"
      "run ev rq =
         (Val (), s0 @ [Log Log_complete, Emit (phase_event rq complete 100), Emit complete_event,
                        Close])"
      "landed rq s0"
  | (handled) s0 m where
      "try_block ev rq (task_start rq) = (Ret, s0 @ [Emit (error_event m), Close])"
      "stopped rq s0"
      "run ev rq = (Exc writer_closed_error, s0 @ [Emit (error_event m), Close, Close])"
  | (thrown) s0 err where
      "try_block ev rq (task_start rq) = (Exc err, s0)"
      "stopped rq s0"
      "run ev rq = (Val (), s0 @ [Emit (error_event (exception_message err)), Close])"
proof -
  obtain r s where b: "try_block ev rq (task_start rq) = (r, s)"
    by (cases "try_block ev rq (task_start rq)")
  from stage_try_block [of rq ev] at_stage_start [of rq] b
  have post: "case r of Val v \<Rightarrow> completed rq s | Ret \<Rightarrow> handled_in rq s | Exc e \<Rightarrow> stopped rq s"
    by (auto simp: hoare_def split: completion.splits)
  show thesis
  proof (cases r)
    case (Val v)
    with post obtain s0 where
      s: "s = s0 @ [Log Log_complete, Emit (phase_event rq complete 100), Emit complete_event]"
      and ld: "landed rq s0"
      by (auto dest: completedD)
    from ld have st: "at_stage rq 6 s0" by (rule landed_at_stage)
    from st have "Close \<notin> set s0" by (rule at_stage_open)
    with b Val s have "run ev rq = (Val (), s @ [Close])"
      by (simp add: run_eq try_finally_def try_catch_def writer_close_def)
    with s have rn: "run ev rq =
         (Val (), s0 @ [Log Log_complete, Emit (phase_event rq complete 100), Emit complete_event,
                        Close])"
      by simp
    from b Val s have tb: "try_block ev rq (task_start rq) =
         (Val (), s0 @ [Log Log_complete, Emit (phase_event rq complete 100), Emit complete_event])"
      by simp
    show thesis by (rule success [OF tb st rn ld])
  next
    case Ret
    with post obtain s0 m where s: "s = s0 @ [Emit (error_event m), Close]" and st: "stopped rq s0"
      by (auto dest: handled_inD)
    with b Ret have "run ev rq = (Exc writer_closed_error, s @ [Close])"
      by (simp add: run_eq try_finally_def try_catch_def writer_close_def)
    with s have "run ev rq = (Exc writer_closed_error, s0 @ [Emit (error_event m), Close, Close])"
      by simp
    moreover from b Ret s
    have "try_block ev rq (task_start rq) = (Ret, s0 @ [Emit (error_event m), Close])"
      by simp
    ultimately show thesis using st by (rule handled [rotated 2])
  next
    case (Exc err)
    with post have st: "stopped rq s" by simp
    then have "Close \<notin> set s" by (rule stopped_open)
    with b Exc have "run ev rq = (Val (), s @ [Emit (error_event (exception_message err)), Close])"
      by (simp add: run_eq try_finally_def try_catch_def writer_close_def sendEvent_def
          writer_write_def)
    moreover from b Exc have "try_block ev rq (task_start rq) = (Exc err, s)"
      by simp
    ultimately show thesis using st by (rule thrown [rotated 2])
  qed
qed

lemmas run_defs = run_def run_trace_def background_task_def console_prelude_def try_block_def
  resolve_inputs_def initial_resolved_def initial_secrets_def needsManagementApi_def redeploy_call_def phase_coordinates_def
  resolve_keys_def resolve_db_def configure_vercel_def project_envs_def teamId_or_undefined_def
  phase_signal_def phase_station_def phase_comms_def phase_contact_def phase_landing_def
  phase_complete_def skippedSteps_def hint_def includes_step_def
  bind_def seq_def unit_task_def return_task_def try_catch_def try_finally_def
  writer_write_def writer_close_def sendEvent_def sendPhase_def log_def call_def eval_def
  fail_with_def opt_trim_def or_else_def trim_def is_white_space_def

lemmas sample_defs = request_full_def collaborators_ok_def request_skip_wait_def
  request_no_token_def collaborators_migration_throws_def

lemma bound_le_100: "bound k \<le> 100"
  by (simp add: bound_def)

lemma stoppedD:
  assumes "stopped rq s"
  shows "Close \<notin> set s" "\<forall>e\<in>set (events s). phase_ok e" "sorted (progs s)"
    "\<forall>p\<in>set (progs s). p \<le> 100" "\<exists>k. set (phases (events s)) = seen rq k"
  using assms bound_le_100 unfolding stopped_def at_stage_def staged_def quiet_def
  by (auto intro: order_trans)

lemma at_stageD:
  assumes "at_stage rq k s"
  shows "Close \<notin> set s" "\<forall>e\<in>set (events s). phase_ok e" "sorted (progs s)"
    "\<forall>p\<in>set (progs s). p \<le> bound k" "set (phases (events s)) = seen rq k"
  using assms unfolding at_stage_def staged_def quiet_def by auto

lemma phase_ok_progress: "phase_ok e \<Longrightarrow> progress e = Some p \<Longrightarrow> 0 \<le> p \<and> p \<le> 100"
  by (auto simp: phase_ok_def split: option.splits)

lemma phase_ok_complete: "phase_ok e \<Longrightarrow> phase e = Some complete \<Longrightarrow> progress e = Some 100"
  by (auto simp: phase_ok_def split: option.splits if_splits)

lemma phase_ok_type: "phase_ok e \<Longrightarrow> type e = T_phase"
  by (simp add: phase_ok_def)

lemma set_progresses: "set (progresses es) = {p. \<exists>e\<in>set es. progress e = Some p}"
  by (induction es) (auto split: option.splits)



text \<open>The events of a run, by its exit.\<close>

lemma run_events_cases:
  obtains
    (success) s0 where "at_stage rq 6 s0"
      "events (run_trace ev rq) = events s0 @ [phase_event rq complete 100, complete_event]"
  | (failure) s0 m where "stopped rq s0"
      "events (run_trace ev rq) = events s0 @ [error_event m]"
proof (cases rule: run_cases [of ev rq])
  case (success s0)
  then show ?thesis by (intro that(1) [of s0]) (simp_all add: run_trace_def)
next
  case (handled s0 m)
  then show ?thesis by (intro that(2) [of s0 m]) (simp_all add: run_trace_def)
next
  case (thrown s0 err)
  then show ?thesis
    by (intro that(2) [of s0 "exception_message err"]) (simp_all add: run_trace_def)
qed

lemma progresses_full:
  "progresses (events (run_trace collaborators_ok request_full)) =
     [5, 10, 15, 20, 25, 35, 40, 55, 60, 75, 80, 90, 92, 98, 100]"
  by (simp add: run_defs sample_defs phase_event_def complete_event_def)






lemma closes_append [simp]: "closes (s @ t) = closes s + closes t"
  by (simp add: closes_def)

lemma closes_open: "Close \<notin> set s \<Longrightarrow> closes s = 0"
  by (simp add: closes_def)

text \<open>On every exit the writer ends closed; a handled failure calls \<open>close\<close> twice.\<close>

lemma closes_run:
  "closes (run_trace ev rq) = (if fst (try_block ev rq (task_start rq)) = Ret then 2 else 1)"
proof (cases rule: run_cases [of ev rq])
  case (success s0)
  from success(2) have "closes s0 = 0"
    by (intro closes_open at_stage_open)
  with success show ?thesis
    by (simp add: run_trace_def) (simp add: closes_def)
next
  case (handled s0 m)
  from handled(2) have "closes s0 = 0"
    by (intro closes_open stopped_open)
  with handled show ?thesis
    by (simp add: run_trace_def) (simp add: closes_def)
next
  case (thrown s0 err)
  from thrown(2) have "closes s0 = 0"
    by (intro closes_open stopped_open)
  with thrown show ?thesis
    by (simp add: run_trace_def) (simp add: closes_def)
qed


lemma stable_unit: "stable I (unit_task v)"
  by (simp add: stable_def hoare_def unit_task_def)

lemma stable_return: "stable I return_task"
  by (simp add: stable_def hoare_def return_task_def)

lemma stable_bind: "stable I m \<Longrightarrow> (\<And>v. stable I (f v)) \<Longrightarrow> stable I (bind m f)"
  unfolding stable_def by (rule hoare_bind)

lemma stable_seq: "stable I m \<Longrightarrow> stable I n \<Longrightarrow> stable I (seq m n)"
  unfolding stable_def by (rule hoare_seq)

lemma stable_if: "(b \<Longrightarrow> stable I m) \<Longrightarrow> (\<not> b \<Longrightarrow> stable I n) \<Longrightarrow> stable I (if b then m else n)"
  by simp

lemma stable_case_keys:
  "stable I m \<Longrightarrow> (\<And>pk sk. stable I (n pk sk)) \<Longrightarrow> stable I (case_keys_result m n x)"
  by (cases x) simp_all

lemma stable_case_db:
  "stable I m \<Longrightarrow> (\<And>u. stable I (n u)) \<Longrightarrow> stable I (case_db_result m n x)"
  by (cases x) simp_all

lemma stable_post:
  assumes "stable I m" and "I s"
  shows "I (snd (m s))"
proof -
  obtain r s' where ms: "m s = (r, s')" by (cases "m s")
  from assms(1) [unfolded stable_def hoare_def, rule_format, OF assms(2)] ms
  have "case r of Val v \<Rightarrow> I s' | Ret \<Rightarrow> I s' | Exc e \<Rightarrow> I s'"
    by simp
  with ms show ?thesis by (cases r) simp_all
qed

lemma stableI:
  assumes "\<And>s. I s \<Longrightarrow> I (snd (m s))"
  shows "stable I m"
  unfolding stable_def hoare_def
proof (intro allI impI)
  fix s
  assume "I s"
  then have "I (snd (m s))" by (rule assms)
  then show "case m s of (Val v, s') \<Rightarrow> I s' | (Ret, s') \<Rightarrow> I s' | (Exc e, s') \<Rightarrow> I s'"
    by (cases "m s"; cases "fst (m s)") simp_all
qed

lemma stable_try_catch:
  assumes m: "stable I m" and h: "\<And>e. stable I (h e)"
  shows "stable I (try_catch m h)"
proof (rule stableI)
  fix s
  assume "I s"
  with m have 1: "I (snd (m s))" by (rule stable_post)
  obtain r s' where ms: "m s = (r, s')" by (cases "m s")
  show "I (snd (try_catch m h s))"
  proof (cases r)
    case (Exc e)
    from h 1 ms have "I (snd (h e s'))" by (auto intro: stable_post)
    with ms Exc show ?thesis by (simp add: try_catch_def)
  qed (use 1 ms in \<open>simp_all add: try_catch_def\<close>)
qed

lemma stable_try_finally:
  assumes m: "stable I m" and f: "stable I fin"
  shows "stable I (try_finally m fin)"
proof (rule stableI)
  fix s
  assume "I s"
  with m have 1: "I (snd (m s))" by (rule stable_post)
  obtain r s' where ms: "m s = (r, s')" by (cases "m s")
  obtain r' s'' where fs: "fin s' = (r', s'')" by (cases "fin s'")
  from f 1 ms fs have "I s''" by (auto dest: stable_post)
  with ms fs show "I (snd (try_finally m fin s))"
    by (cases r') (simp_all add: try_finally_def)
qed

lemma stable_log: "preserves I (Log l) \<Longrightarrow> stable I (log l)"
  by (simp add: stable_def hoare_def log_def preserves_def)

lemma stable_call: "preserves I (Call c) \<Longrightarrow> stable I (call c r)"
  by (simp add: stable_def hoare_def call_def preserves_def split: outcome.splits)

lemma stable_eval: "stable I (eval r)"
  by (simp add: stable_def hoare_def eval_def split: outcome.splits)

lemma stable_sendEvent: "preserves I (Emit e) \<Longrightarrow> stable I (sendEvent e)"
  by (simp add: stable_def hoare_def sendEvent_def writer_write_def preserves_def)

lemma stable_sendPhase: "preserves I (Emit (phase_event rq ph p)) \<Longrightarrow> stable I (sendPhase rq ph p)"
  by (simp add: sendPhase_def stable_sendEvent)

lemma stable_close: "preserves I Close \<Longrightarrow> stable I writer_close"
  by (simp add: stable_def hoare_def writer_close_def preserves_def)

lemma stable_fail_with: "inert I \<Longrightarrow> stable I (fail_with m)"
  unfolding fail_with_def inert_def
  by (intro stable_seq stable_sendEvent stable_close stable_return) simp_all

lemma inert_log: "inert I \<Longrightarrow> stable I (log l)"
  by (simp add: inert_def stable_log)

lemmas stable_intros = stable_unit stable_return stable_bind stable_seq stable_if
  stable_case_keys stable_case_db stable_try_catch stable_eval stable_fail_with inert_log
  stable_sendPhase stable_call

text \<open>What each phase may append to the trace.\<close>

lemma stable_resolve_inputs:
  assumes "inert I"
    and "deployEdgeFunctions (supabase rq) \<Longrightarrow> preserves I (Call Call_listEdgeFunctionSlugs)"
  shows "stable I (resolve_inputs ev rq)"
  unfolding resolve_inputs_def by (intro stable_intros assms)

lemma stable_coordinates:
  assumes "inert I"
    and "\<And>p. preserves I (Emit (phase_event rq coordinates p))"
    and "needsKeys c \<Longrightarrow>
         preserves I (Call (Call_resolveSupabaseApiKeys (resolvedProjectRef c) (resolvedAccessToken c)))"
    and "needsDb c \<Longrightarrow>
         preserves I (Call (Call_resolveSupabaseDbUrlViaCliLoginRole
                              (resolvedProjectRef c) (resolvedAccessToken c)))"
    and "\<And>t p es team. preserves I (Call (Call_upsertProjectEnvs t p es team))"
  shows "stable I (phase_coordinates ev rq c)"
  unfolding phase_coordinates_def resolve_keys_def resolve_db_def configure_vercel_def
  by (intro stable_intros assms)

lemma stable_signal:
  assumes "inert I"
    and "\<And>p. \<not> includes_step (skippedSteps rq) ''wait_project'' \<Longrightarrow>
              preserves I (Emit (phase_event rq signal p))"
    and "\<And>a p t i. \<not> includes_step (skippedSteps rq) ''wait_project'' \<Longrightarrow>
              preserves I (Call (Call_waitForSupabaseProjectReady a p t i))"
  shows "stable I (phase_signal ev rq c)"
  unfolding phase_signal_def by (intro stable_intros assms)

lemma stable_station:
  assumes "inert I"
    and "\<And>p. \<not> includes_step (skippedSteps rq) ''migrations'' \<Longrightarrow>
              preserves I (Emit (phase_event rq station p))"
    and "\<And>u. \<not> includes_step (skippedSteps rq) ''migrations'' \<Longrightarrow>
              preserves I (Call (Call_runSchemaMigration u))"
  shows "stable I (phase_station ev rq k)"
  unfolding phase_station_def by (intro stable_intros assms)

lemma stable_comms:
  assumes "inert I"
    and "\<And>p. preserves I (Emit (phase_event rq comms p))"
    and "\<And>p a u ak sk. deployEdgeFunctions (supabase rq) \<and> hasLocalEdgeFunctions c \<Longrightarrow>
              preserves I (Call (Call_setSupabaseEdgeFunctionSecrets p a u ak sk))"
    and "\<And>p a. deployEdgeFunctions (supabase rq) \<and> hasLocalEdgeFunctions c \<Longrightarrow>
              preserves I (Call (Call_deployAllSupabaseEdgeFunctions p a))"
  shows "stable I (phase_comms ev rq c k)"
  unfolding phase_comms_def by (intro stable_intros assms)

lemma stable_contact:
  assumes "inert I"
    and "\<And>p. \<not> includes_step (skippedSteps rq) ''bootstrap'' \<Longrightarrow>
              preserves I (Emit (phase_event rq contact p))"
    and "\<And>u sk c e p. \<not> includes_step (skippedSteps rq) ''bootstrap'' \<Longrightarrow>
              preserves I (Call (Call_bootstrapInstance u sk c e p))"
  shows "stable I (phase_contact ev rq k)"
  unfolding phase_contact_def by (intro stable_intros assms)

lemma stable_landing:
  assumes "inert I"
    and "\<And>p. preserves I (Emit (phase_event rq landing p))"
    and "preserves I (Call (redeploy_call rq))"
  shows "stable I (phase_landing ev rq)"
  unfolding phase_landing_def by (intro stable_intros assms)

lemma stable_complete:
  assumes "inert I"
    and "\<And>p. preserves I (Emit (phase_event rq complete p))"
    and "preserves I (Emit complete_event)"
  shows "stable I (phase_complete rq)"
  unfolding phase_complete_def by (intro stable_intros stable_sendEvent assms)

lemma calls_append [simp]: "calls (s @ t) = calls s @ calls t"
  by (induction s rule: calls.induct) auto

lemma logs_append [simp]: "logs (s @ t) = logs s @ logs t"
  by (induction s rule: logs.induct) auto

lemma preserves_calls_ok:
  "preserves (calls_ok P) (Log l)" "preserves (calls_ok P) (Emit e)" "preserves (calls_ok P) Close"
  "P c \<Longrightarrow> preserves (calls_ok P) (Call c)"
  by (simp_all add: preserves_def calls_ok_def)

lemma inert_calls_ok: "inert (calls_ok P)"
  by (simp add: inert_def preserves_calls_ok)

lemma stable_bind_value:
  assumes m: "stable I m" and v: "\<And>s v s'. m s = (Val v, s') \<Longrightarrow> V v"
    and f: "\<And>v. V v \<Longrightarrow> stable I (f v)"
  shows "stable I (bind m f)"
proof (rule stableI)
  fix s
  assume "I s"
  with m have 1: "I (snd (m s))" by (rule stable_post)
  obtain r s' where ms: "m s = (r, s')" by (cases "m s")
  show "I (snd (bind m f s))"
  proof (cases r)
    case (Val x)
    with ms v have "V x" by blast
    with f 1 ms have "I (snd (f x s'))" by (auto intro: stable_post)
    with ms Val show ?thesis by (simp add: bind_def)
  qed (use 1 ms in \<open>simp_all add: bind_def\<close>)
qed

lemma resolve_inputs_value:
  assumes "resolve_inputs ev rq s = (Val c, s')"
  shows "(deployEdgeFunctions (supabase rq) \<and> hasLocalEdgeFunctions c) = has_local ev rq"
  using assms unfolding resolve_inputs_def has_local_def task_defs
  by (auto simp: initial_resolved_def split: outcome.splits if_splits)

text \<open>An assertion that each phase keeps is kept by the \<open>try\<close> block and by the run.\<close>

lemma stable_try_block:
  assumes "stable I (resolve_inputs ev rq)"
    and "\<And>c. stable I (phase_coordinates ev rq c)"
    and "\<And>c. stable I (phase_signal ev rq c)"
    and "\<And>k. stable I (phase_station ev rq k)"
    and "\<And>c k. (deployEdgeFunctions (supabase rq) \<and> hasLocalEdgeFunctions c) = has_local ev rq \<Longrightarrow>
           stable I (phase_comms ev rq c k)"
    and "\<And>k. stable I (phase_contact ev rq k)"
    and "stable I (phase_landing ev rq)"
    and "stable I (phase_complete rq)"
  shows "stable I (try_block ev rq)"
  unfolding try_block_def
  by (rule stable_bind_value [where V = "\<lambda>c. (deployEdgeFunctions (supabase rq) \<and> hasLocalEdgeFunctions c) = has_local ev rq"])
     (intro assms stable_bind stable_seq | erule resolve_inputs_value)+

lemma run_invariant:
  assumes "hoare P (try_block ev rq) (\<lambda>_. I) I (\<lambda>_. I)" and "P (task_start rq)" and "inert I"
  shows "I (run_trace ev rq)"
proof -
  obtain r s where b: "try_block ev rq (task_start rq) = (r, s)"
    by (cases "try_block ev rq (task_start rq)")
  from assms(1,2) b have s: "I s"
    by (cases r) (auto simp: hoare_def)
  from assms(3) have err: "\<And>m t. I t \<Longrightarrow> I (t @ [Emit (error_event m)])"
    and cl: "\<And>t. I t \<Longrightarrow> I (t @ [Close])"
    by (auto simp: inert_def preserves_def)
  have 1: "I (s @ [Close])"
    by (intro cl s)
  have 2: "I (s @ [Emit (error_event m), Close])" for m
    using cl [OF err [OF s, of m]] by simp
  show ?thesis
  proof (cases r)
    case (Exc e)
    with b 1 2 show ?thesis
      by (auto simp: run_trace_def run_eq try_finally_def try_catch_def writer_close_def
          sendEvent_def writer_write_def)
  qed (use b 1 in \<open>auto simp: run_trace_def run_eq try_finally_def try_catch_def
          writer_close_def\<close>)
qed

lemma run_stable:
  assumes "stable I (try_block ev rq)" and "I (task_start rq)" and "inert I"
  shows "I (run_trace ev rq)"
  by (rule run_invariant [where P = I]) (use assms in \<open>simp_all add: stable_def\<close>)

text \<open>Which collaborators a run may call.\<close>

lemma run_calls:
  assumes "deployEdgeFunctions (supabase rq) \<Longrightarrow> P Call_listEdgeFunctionSlugs"
    and "\<And>p a. P (Call_resolveSupabaseApiKeys p a)"
    and "\<And>p a. P (Call_resolveSupabaseDbUrlViaCliLoginRole p a)"
    and "\<And>t p es team. P (Call_upsertProjectEnvs t p es team)"
    and "\<And>a p t i. \<not> includes_step (skippedSteps rq) ''wait_project'' \<Longrightarrow>
           P (Call_waitForSupabaseProjectReady a p t i)"
    and "\<And>u. \<not> includes_step (skippedSteps rq) ''migrations'' \<Longrightarrow> P (Call_runSchemaMigration u)"
    and "\<And>p a u ak sk. has_local ev rq \<Longrightarrow> P (Call_setSupabaseEdgeFunctionSecrets p a u ak sk)"
    and "\<And>p a. has_local ev rq \<Longrightarrow> P (Call_deployAllSupabaseEdgeFunctions p a)"
    and "\<And>u sk c e p. \<not> includes_step (skippedSteps rq) ''bootstrap'' \<Longrightarrow>
           P (Call_bootstrapInstance u sk c e p)"
    and "P (redeploy_call rq)"
  shows "\<forall>c\<in>set (calls (run_trace ev rq)). P c"
proof -
  have "calls_ok P (run_trace ev rq)"
  proof (rule run_stable)
    show "stable (calls_ok P) (try_block ev rq)"
      by (intro stable_try_block stable_resolve_inputs stable_coordinates stable_signal
          stable_station stable_comms stable_contact stable_landing stable_complete
          inert_calls_ok preserves_calls_ok assms)
        simp_all
    show "calls_ok P (task_start rq)"
      by (simp add: calls_ok_def task_start_def console_prelude_def)
    show "inert (calls_ok P)"
      by (rule inert_calls_ok)
  qed
  then show ?thesis by (simp add: calls_ok_def)
qed

lemma calls_skip_bootstrap:
  "calls (run_trace collaborators_ok request_skip_bootstrap) =
     [Call_upsertProjectEnvs ''vercel-token'' ''prj_1''
        [(''NEXT_PUBLIC_SUPABASE_URL'', ''https://abcd.supabase.co'', [production]),
         (''NEXT_PUBLIC_SUPABASE_ANON_KEY'', ''anon-key'', [production]),
         (''SUPABASE_SERVICE_ROLE_KEY'', ''service-key'', [production]),
         (''INSTALLER_ENABLED'', ''false'', [production])] None,
      Call_waitForSupabaseProjectReady ''sbp_token'' ''abcd'' 210000 4000,
      Call_runSchemaMigration ''postgresql://db'',
      Call_triggerProjectRedeploy ''vercel-token'' ''prj_1'' None]"
  by (simp add: run_defs sample_defs request_skip_bootstrap_def hint_skip_bootstrap_def)

lemma deploy_guarded_append:
  "deploy_guarded ev pre (s @ t) = (deploy_guarded ev pre s \<and> deploy_guarded ev (pre @ s) t)"
  by (induction s arbitrary: pre) auto

lemma deploy_guardedD:
  "deploy_guarded ev p (pre @ a # post) \<Longrightarrow> deploy_action a \<Longrightarrow> secrets_done ev (p @ pre)"
  by (simp add: deploy_guarded_append)

lemma secrets_done_append [simp]: "secrets_done ev (s @ t) = (secrets_done ev s \<or> secrets_done ev t)"
  by (auto simp: secrets_done_def)

lemma preserves_guarded:
  "\<not> deploy_action a \<Longrightarrow> preserves (deploy_guarded ev []) a"
  by (simp add: preserves_def deploy_guarded_append)

lemma inert_guarded: "inert (deploy_guarded ev [])"
  by (simp add: inert_def preserves_guarded)

lemma stable_comms_guarded: "stable (deploy_guarded ev []) (phase_comms ev rq c k)"
  unfolding phase_comms_def stable_def task_defs
  by (auto simp: deploy_guarded_append secrets_done_def split: outcome.splits)

lemma run_deploy_guarded: "deploy_guarded ev [] (run_trace ev rq)"
proof (rule run_stable)
  show "stable (deploy_guarded ev []) (try_block ev rq)"
    by (intro stable_try_block stable_resolve_inputs stable_coordinates stable_signal
        stable_station stable_comms_guarded stable_contact stable_landing stable_complete
        inert_guarded preserves_guarded)
       (simp_all add: redeploy_call_def)
  show "deploy_guarded ev [] (task_start rq)"
    by (simp add: task_start_def console_prelude_def)
  show "inert (deploy_guarded ev [])"
    by (rule inert_guarded)
qed

lemma adjacent_append1: "adjacent a b xs \<Longrightarrow> adjacent a b (xs @ ys)"
  by (induction a b xs rule: adjacent.induct) auto

lemma adjacent_append2: "adjacent a b ys \<Longrightarrow> adjacent a b (xs @ ys)"
proof (induction xs)
  case Nil
  then show ?case by simp
next
  case (Cons x xs)
  then show ?case by (cases "xs @ ys") auto
qed

lemma adjacent_iff: "adjacent a b xs \<longleftrightarrow> (\<exists>us vs. xs = us @ a # b # vs)"
proof
  show "adjacent a b xs \<Longrightarrow> \<exists>us vs. xs = us @ a # b # vs"
  proof (induction a b xs rule: adjacent.induct)
    case (1 a b x y ys)
    show ?case
    proof (cases "x = a \<and> y = b")
      case True
      then have "x # y # ys = [] @ a # b # ys" by simp
      then show ?thesis by blast
    next
      case False
      with 1 obtain us vs where "y # ys = us @ a # b # vs" by auto
      then have "x # y # ys = (x # us) @ a # b # vs" by simp
      then show ?thesis by blast
    qed
  qed simp_all
next
  assume "\<exists>us vs. xs = us @ a # b # vs"
  then obtain us vs where "xs = us @ (a # b # vs)" by auto
  moreover have "adjacent a b (a # b # vs)" by simp
  ultimately show "adjacent a b xs" by (simp only: adjacent_append2)
qed

lemma phase_event_eq [simp]:
  "phase_event rq ph p = phase_event rq ph' p' \<longleftrightarrow> ph = ph' \<and> p = p'"
  by (auto simp: phase_event_def)

lemma phase_event_neq [simp]:
  "phase_event rq ph p \<noteq> error_event m" "error_event m \<noteq> phase_event rq ph p"
  "phase_event rq ph p \<noteq> complete_event" "complete_event \<noteq> phase_event rq ph p"
  by (auto simp: phase_event_def error_event_def complete_event_def)

lemma preserves_before_comms:
  "preserves (before_comms rq) (Log l)" "preserves (before_comms rq) Close"
  "preserves (before_comms rq) (Call x)" "preserves (before_comms rq) (Emit (error_event m))"
  "ph \<noteq> comms \<Longrightarrow> preserves (before_comms rq) (Emit (phase_event rq ph p))"
  by (simp_all add: preserves_def before_comms_def)

lemma inert_before_comms: "inert (before_comms rq)"
  by (simp add: inert_def preserves_before_comms)

lemma preserves_after_comms: "preserves (after_comms rq) a"
  by (simp add: preserves_def after_comms_def adjacent_append1)

lemma inert_after_comms: "inert (after_comms rq)"
  by (simp add: inert_def preserves_after_comms)

lemma inert_comms_advanced: "inert (comms_advanced rq)"
  by (auto simp: inert_def preserves_def comms_advanced_def adjacent_append1)

lemma stable_hoare:
  assumes "stable I m" and "\<And>s. I s \<Longrightarrow> R s"
  shows "hoare I m (\<lambda>_. I) R (\<lambda>_. R)"
  using assms(1) unfolding stable_def by (rule hoare_weaken) (auto intro: assms(2))

lemma stable_hoare_value:
  assumes "stable I m" and "\<And>s v s'. m s = (Val v, s') \<Longrightarrow> V v" and "\<And>s. I s \<Longrightarrow> R s"
  shows "hoare I m (\<lambda>v s. I s \<and> V v) R (\<lambda>_. R)"
  unfolding hoare_def
proof (intro allI impI)
  fix s
  assume "I s"
  with assms(1) have 1: "I (snd (m s))" by (rule stable_post)
  obtain r s' where ms: "m s = (r, s')" by (cases "m s")
  with 1 assms(2,3) show "case m s of (Val v, s') \<Rightarrow> I s' \<and> V v | (Ret, s') \<Rightarrow> R s'
      | (Exc e, s') \<Rightarrow> R s'"
    by (cases r) auto
qed

lemma hoare_pure_pre:
  assumes "V \<Longrightarrow> hoare P m Q R E"
  shows "hoare (\<lambda>s. P s \<and> V) m Q R E"
  using assms by (auto simp: hoare_def)

lemma comms_noop:
  assumes "\<not> (deployEdgeFunctions (supabase rq) \<and> hasLocalEdgeFunctions c)"
  shows "hoare (before_comms rq) (phase_comms ev rq c k) (\<lambda>_. after_comms rq)
           (comms_advanced rq) (\<lambda>_. comms_advanced rq)"
  using assms unfolding phase_comms_def task_defs before_comms_def after_comms_def
    comms_advanced_def
  by (auto simp: adjacent_append2)

lemma comms_advanced_try_block:
  assumes "\<not> has_local ev rq"
  shows "hoare (before_comms rq) (try_block ev rq) (\<lambda>_. comms_advanced rq)
           (comms_advanced rq) (\<lambda>_. comms_advanced rq)"
proof -
  let ?A = "before_comms rq" and ?B = "after_comms rq" and ?K = "comms_advanced rq"
  have AK: "?A s \<Longrightarrow> ?K s" and BK: "?B s \<Longrightarrow> ?K s" for s
    by (simp_all add: before_comms_def after_comms_def comms_advanced_def)
  have 1: "hoare ?A (resolve_inputs ev rq)
             (\<lambda>c s. ?A s \<and> \<not> (deployEdgeFunctions (supabase rq) \<and> hasLocalEdgeFunctions c))
             ?K (\<lambda>_. ?K)"
    by (rule stable_hoare_value)
       (use assms in \<open>auto intro!: stable_resolve_inputs inert_before_comms preserves_before_comms
          dest: resolve_inputs_value intro: AK\<close>)
  have 2: "hoare ?A (phase_coordinates ev rq c) (\<lambda>_. ?A) ?K (\<lambda>_. ?K)" for c
    by (intro stable_hoare stable_coordinates inert_before_comms preserves_before_comms AK)
       simp_all
  have 3: "hoare ?A (phase_signal ev rq c) (\<lambda>_. ?A) ?K (\<lambda>_. ?K)" for c
    by (intro stable_hoare stable_signal inert_before_comms preserves_before_comms AK)
       simp_all
  have 4: "hoare ?A (phase_station ev rq k) (\<lambda>_. ?A) ?K (\<lambda>_. ?K)" for k
    by (intro stable_hoare stable_station inert_before_comms preserves_before_comms AK)
       simp_all
  have 6: "hoare ?B (phase_contact ev rq k) (\<lambda>_. ?B) ?K (\<lambda>_. ?K)" for k
    by (intro stable_hoare stable_contact inert_after_comms preserves_after_comms BK)
  have 7: "hoare ?B (phase_landing ev rq) (\<lambda>_. ?B) ?K (\<lambda>_. ?K)"
    by (intro stable_hoare stable_landing inert_after_comms preserves_after_comms BK)
  have "hoare ?B (phase_complete rq) (\<lambda>_. ?B) ?K (\<lambda>_. ?K)"
    by (intro stable_hoare stable_complete inert_after_comms preserves_after_comms BK)
  then have 8: "hoare ?B (phase_complete rq) (\<lambda>_. ?K) ?K (\<lambda>_. ?K)"
    by (rule hoare_weaken) (auto intro: BK)
  show ?thesis
    unfolding try_block_def
    apply (rule hoare_bind [OF 1])
    apply (rule hoare_pure_pre)
    apply (rule hoare_bind [OF 2])
    apply (intro hoare_seq [OF 3] hoare_seq [OF 4] hoare_seq [OF comms_noop] hoare_seq [OF 6]
        hoare_seq [OF 7] 8)
    apply assumption
    done
qed

lemma run_comms_advanced:
  assumes "\<not> has_local ev rq"
  shows "comms_advanced rq (run_trace ev rq)"
  by (rule run_invariant [OF comms_advanced_try_block [OF assms]])
     (simp_all add: before_comms_def task_start_def console_prelude_def inert_comms_advanced)

lemma calls_deploy:
  "calls (run_trace collaborators_ok request_deploy) =
     [Call_listEdgeFunctionSlugs,
      Call_upsertProjectEnvs ''vercel-token'' ''prj_1''
        [(''NEXT_PUBLIC_SUPABASE_URL'', ''https://abcd.supabase.co'', [production]),
         (''NEXT_PUBLIC_SUPABASE_ANON_KEY'', ''anon-key'', [production]),
         (''SUPABASE_SERVICE_ROLE_KEY'', ''service-key'', [production]),
         (''INSTALLER_ENABLED'', ''false'', [production])] None,
      Call_waitForSupabaseProjectReady ''sbp_token'' ''abcd'' 210000 4000,
      Call_runSchemaMigration ''postgresql://db'',
      Call_setSupabaseEdgeFunctionSecrets ''abcd'' ''sbp_token'' ''https://abcd.supabase.co''
        ''anon-key'' ''service-key'',
      Call_deployAllSupabaseEdgeFunctions ''abcd'' ''sbp_token'',
      Call_bootstrapInstance ''https://abcd.supabase.co'' ''service-key'' ''Acme Corp''
        ''ops@acme.io'' ''secret1'',
      Call_triggerProjectRedeploy ''vercel-token'' ''prj_1'' None]"
  by (simp add: run_defs sample_defs request_deploy_def)

lemma mem_calls: "c \<in> set (calls t) \<longleftrightarrow> Call c \<in> set t"
  by (induction t rule: calls.induct) auto

lemma events_full_comms:
  "phase_event request_full comms 60 \<in> set (events (run_trace collaborators_ok request_full))"
  by (simp add: run_defs sample_defs)

lemma hoare_and_stable:
  assumes h: "hoare P m (\<lambda>_. Q) R E" and st: "stable I m"
  shows "hoare (\<lambda>s. P s \<and> I s) m (\<lambda>_ s. Q s \<and> I s) I (\<lambda>_. I)"
  unfolding hoare_def
proof (intro allI impI)
  fix s
  assume a: "P s \<and> I s"
  with st have 1: "I (snd (m s))" by (auto intro: stable_post)
  obtain r s' where ms: "m s = (r, s')" by (cases "m s")
  from h a ms have "case r of Val v \<Rightarrow> Q s' | Ret \<Rightarrow> R s' | Exc e \<Rightarrow> E e s'"
    by (auto simp: hoare_def)
  with 1 ms show "case m s of (Val v, s') \<Rightarrow> Q s' \<and> I s' | (Ret, s') \<Rightarrow> I s' | (Exc e, s') \<Rightarrow> I s'"
    by (cases r) auto
qed

lemma inert_no_redeploy: "inert no_redeploy"
  unfolding no_redeploy_def by (rule inert_calls_ok)

lemma preserves_no_redeploy:
  "preserves no_redeploy (Log l)" "preserves no_redeploy (Emit e)" "preserves no_redeploy Close"
  "\<not> is_redeploy_call c \<Longrightarrow> preserves no_redeploy (Call c)"
  unfolding no_redeploy_def by (simp_all add: preserves_calls_ok)

text \<open>A run that fails has not reached the redeploy.\<close>

lemma failure_before_redeploy:
  "hoare (\<lambda>s. at_stage rq 0 s \<and> no_redeploy s) (try_block ev rq) (\<lambda>_ s. True)
     no_redeploy (\<lambda>_. no_redeploy)"
proof -
  let ?N = no_redeploy
  note intros = inert_no_redeploy preserves_no_redeploy
  have 1: "hoare (\<lambda>s. at_stage rq 0 s \<and> ?N s) (resolve_inputs ev rq)
             (\<lambda>_ s. at_stage rq 0 s \<and> ?N s) ?N (\<lambda>_. ?N)"
    by (rule hoare_and_stable [OF stage_resolve_inputs]) (intro stable_resolve_inputs intros; simp)
  have 2: "hoare (\<lambda>s. at_stage rq 0 s \<and> ?N s) (phase_coordinates ev rq c)
             (\<lambda>_ s. at_stage rq 1 s \<and> ?N s) ?N (\<lambda>_. ?N)" for c
    by (rule hoare_and_stable [OF stage_coordinates]) (intro stable_coordinates intros; simp)
  have 3: "hoare (\<lambda>s. at_stage rq 1 s \<and> ?N s) (phase_signal ev rq c)
             (\<lambda>_ s. at_stage rq 2 s \<and> ?N s) ?N (\<lambda>_. ?N)" for c
    by (rule hoare_and_stable [OF stage_signal]) (intro stable_signal intros; simp)
  have 4: "hoare (\<lambda>s. at_stage rq 2 s \<and> ?N s) (phase_station ev rq k)
             (\<lambda>_ s. at_stage rq 3 s \<and> ?N s) ?N (\<lambda>_. ?N)" for k
    by (rule hoare_and_stable [OF stage_station]) (intro stable_station intros; simp)
  have 5: "hoare (\<lambda>s. at_stage rq 3 s \<and> ?N s) (phase_comms ev rq c k)
             (\<lambda>_ s. at_stage rq 4 s \<and> ?N s) ?N (\<lambda>_. ?N)" for c k
    by (rule hoare_and_stable [OF stage_comms]) (intro stable_comms intros; simp)
  have 6: "hoare (\<lambda>s. at_stage rq 4 s \<and> ?N s) (phase_contact ev rq k)
             (\<lambda>_ s. at_stage rq 5 s \<and> ?N s) ?N (\<lambda>_. ?N)" for k
    by (rule hoare_and_stable [OF stage_contact]) (intro stable_contact intros; simp)
  have 7: "hoare (\<lambda>s. at_stage rq 5 s \<and> ?N s) (phase_landing ev rq) (\<lambda>_. landed rq)
             ?N (\<lambda>_. ?N)"
    by (rule hoare_weaken [OF stage_landing]) auto
  have 8: "hoare (landed rq) (phase_complete rq) (\<lambda>_ s. True) ?N (\<lambda>_. ?N)"
    by (rule hoare_weaken [OF stage_complete]) auto
  show ?thesis
    unfolding try_block_def
    by (intro hoare_bind [OF 1] hoare_bind [OF 2] hoare_seq [OF 3] hoare_seq [OF 4]
        hoare_seq [OF 5] hoare_seq [OF 6] hoare_seq [OF 7] 8)
qed

lemma failed_run_no_redeploy:
  assumes "try_block ev rq (task_start rq) = (r, s)" and "r \<noteq> Val ()"
  shows "Call (redeploy_call rq) \<notin> set s"
proof -
  have "no_redeploy (task_start rq)"
    by (simp add: no_redeploy_def calls_ok_def task_start_def console_prelude_def)
  with at_stage_start [of rq] have "at_stage rq 0 (task_start rq) \<and> no_redeploy (task_start rq)"
    by simp
  with failure_before_redeploy [of rq ev] assms have "no_redeploy s"
    by (cases r) (auto simp: hoare_def)
  then show ?thesis
    by (auto simp: no_redeploy_def calls_ok_def mem_calls [symmetric] redeploy_call_def)
qed

text \<open>The run does not depend on what the redeploy trigger does.\<close>

lemma swallowed:
  "try_catch (seq (log l) (call c r)) (\<lambda>err. unit_task ()) = (\<lambda>s. (Val (), s @ [Log l, Call c]))"
  by (auto simp: fun_eq_iff try_catch_def seq_def bind_def log_def call_def unit_task_def
      split: outcome.splits)

lemma run_any_redeploy: "run (ev\<lparr>triggerProjectRedeploy := f\<rparr>) rq = run ev rq"
proof -
  let ?ev = "ev\<lparr>triggerProjectRedeploy := f\<rparr>"
  have "initial_resolved ?ev rq l = initial_resolved ev rq l" for l
    by (simp add: initial_resolved_def)
  then have "resolve_inputs ?ev rq = resolve_inputs ev rq"
    by (simp add: resolve_inputs_def cong: if_cong)
  moreover have "phase_coordinates ?ev rq c = phase_coordinates ev rq c" for c
    by (simp add: phase_coordinates_def resolve_keys_def resolve_db_def configure_vercel_def
        cong: if_cong db_result.case_cong keys_result.case_cong)
  moreover have "phase_signal ?ev rq c = phase_signal ev rq c" for c
    by (simp add: phase_signal_def cong: if_cong)
  moreover have "phase_station ?ev rq k = phase_station ev rq k" for k
    by (simp add: phase_station_def cong: if_cong)
  moreover have "phase_comms ?ev rq c k = phase_comms ev rq c k" for c k
    by (simp add: phase_comms_def cong: if_cong)
  moreover have "phase_contact ?ev rq k = phase_contact ev rq k" for k
    by (simp add: phase_contact_def cong: if_cong)
  moreover have "phase_landing ?ev rq = phase_landing ev rq"
    by (simp add: phase_landing_def swallowed cong: if_cong)
  ultimately have "try_block ?ev rq = try_block ev rq"
    by (simp add: try_block_def)
  then show ?thesis
    by (simp add: run_def background_task_def)
qed

lemma logs_redeploy_throws:
  "logs (run_trace collaborators_redeploy_throws request_full) =
     [Log_inicio [], Log_phase1, Log_resolvendo_chaves False, Log_resolvendo_db_url False,
      Log_configurando_vercel, Log_phase2, Log_phase3, Log_executando_migrations,
      Log_migrations_concluidas, Log_phase4, Log_phase5, Log_criando_organizacao, Log_phase6,
      Log_disparando_redeploy, Log_complete]"
  by (simp add: run_defs sample_defs collaborators_redeploy_throws_def)

lemma redeploy_throws:
  "triggerProjectRedeploy collaborators_redeploy_throws (token (vercel request_full))
     (projectId (vercel request_full)) (teamId_or_undefined request_full) =
   Throws (Error_instance redeploy_message)"
  by (simp add: collaborators_redeploy_throws_def collaborators_ok_def)

lemma redeploy_reached:
  "Call (redeploy_call request_full) \<in> set (run_trace collaborators_redeploy_throws request_full)"
  by (simp add: run_defs sample_defs collaborators_redeploy_throws_def)


lemma run_any_token: "run ev (rq\<lparr>RunData.installerToken := t\<rparr>) = run ev rq"
proof -
  let ?rq = "rq\<lparr>RunData.installerToken := t\<rparr>"
  have ph [simp]: "phase_event ?rq = phase_event rq"
    by (simp add: fun_eq_iff phase_event_def firstName_def)
  have sk [simp]: "skippedSteps ?rq = skippedSteps rq"
    by (simp add: skippedSteps_def hint_def)
  have sp [simp]: "sendPhase ?rq = sendPhase rq"
    by (simp add: fun_eq_iff sendPhase_def)
  have tm [simp]: "teamId_or_undefined ?rq = teamId_or_undefined rq"
    by (simp add: teamId_or_undefined_def)
  have ins [simp]: "initial_secrets ?rq = initial_secrets rq"
    by (simp add: initial_secrets_def)
  have "initial_resolved ev ?rq l = initial_resolved ev rq l" for l
    by (simp add: initial_resolved_def)
  moreover have "needsManagementApi ?rq c = needsManagementApi rq c" for c
    by (simp add: needsManagementApi_def)
  ultimately have "resolve_inputs ev ?rq = resolve_inputs ev rq"
    by (simp add: resolve_inputs_def cong: if_cong)
  moreover have "phase_coordinates ev ?rq c = phase_coordinates ev rq c" for c
    by (simp add: phase_coordinates_def resolve_keys_def resolve_db_def configure_vercel_def
        project_envs_def cong: if_cong db_result.case_cong keys_result.case_cong)
  moreover have "phase_signal ev ?rq c = phase_signal ev rq c" for c
    by (simp add: phase_signal_def cong: if_cong)
  moreover have "phase_station ev ?rq k = phase_station ev rq k" for k
    by (simp add: phase_station_def cong: if_cong)
  moreover have "phase_comms ev ?rq c k = phase_comms ev rq c k" for c k
    by (simp add: phase_comms_def cong: if_cong)
  moreover have "phase_contact ev ?rq k = phase_contact ev rq k" for k
    by (simp add: phase_contact_def cong: if_cong)
  moreover have "phase_landing ev ?rq = phase_landing ev rq"
    by (simp add: phase_landing_def redeploy_call_def cong: if_cong)
  moreover have "phase_complete ?rq = phase_complete rq"
    by (simp add: phase_complete_def cong: if_cong)
  ultimately have "try_block ev ?rq = try_block ev rq"
    by (simp add: try_block_def)
  moreover have "console_prelude ?rq = console_prelude rq"
    by (simp add: console_prelude_def)
  ultimately show ?thesis
    by (simp add: run_def background_task_def)
qed

lemmas route_defs = POST_run_stream_def POST_delete_def POST_list_def token_rejected_def

lemmas route_sample_defs = env_no_token_def env_with_token_def delete_always_ok_def
  request_delete_padded_def request_delete_mismatch_def request_list_guess_def
  list_org_missing_def request_run_guess_def msg_forbidden_def msg_installer_disabled_def
  msg_invalid_token_def msg_confirmation_mismatch_def list_projects_def status_or_500_def

lemma trim_abcd: "trim ''abcd '' = ''abcd''" "trim ''abcd'' = ''abcd''" "trim ''abce'' = ''abce''"
  "trim ''sbp_token'' = ''sbp_token''" "trim ''acme'' = ''acme''"
  by (simp_all add: trim_def is_white_space_def)


section \<open>The claims\<close>

subsection \<open>C1: the order of the phases\<close>




subsection \<open>C2: closing the stream writer\<close>

text \<open>
  Claim C2 says that the writer is closed exactly once on every exit path. A handled
  failure runs \<open>await writer.close(); return;\<close> inside the \<open>try\<close>, and the \<open>finally\<close>
  block then calls \<open>writer.close()\<close> again: two calls, the second on a writer that is
  already closed, so that it rejects and the rejection leaves the task. The request below
  lacks the anon key and the access token.
\<close>

theorem handled_failure_closes_twice:
  "closes (run_trace collaborators_ok request_no_token) = 2 \<and>
   settled collaborators_ok request_no_token = Rejected writer_closed_error \<and>
   events (run_trace collaborators_ok request_no_token) = [error_event msg_no_access_token]"
  by (simp add: settled_def closes_def run_defs sample_defs)

subsection \<open>C3: exceptions at the outer boundary\<close>




subsection \<open>C4: missing credentials\<close>



subsection \<open>C5: progress is monotone and bounded\<close>

text \<open>
  Claim C5. Within any one run, the progress values carried by the emitted events are
  non-decreasing and lie between 0 and 100, and an event of the phase \<open>complete\<close>
  always carries the progress 100. This holds for every request and whatever the
  collaborators do.
\<close>

theorem progress_nondecreasing_bounded:
  "sorted (progresses (events (run_trace ev rq))) \<and>
   (\<forall>p\<in>set (progresses (events (run_trace ev rq))). 0 \<le> p \<and> p \<le> 100) \<and>
   (\<forall>e\<in>set (events (run_trace ev rq)). phase e = Some complete \<longrightarrow> progress e = Some 100)"
proof (cases rule: run_events_cases [of rq ev])
  case (success s0)
  note st = at_stageD [OF success(1)]
  from st(4) have le: "\<forall>p\<in>set (progs s0). p \<le> 100"
    by (auto simp: bound_def)
  have "sorted (progresses (events (run_trace ev rq)))"
    using st(3) le by (simp add: success(2) sorted_append progs_def)
  moreover have "\<forall>p\<in>set (progresses (events (run_trace ev rq))). 0 \<le> p \<and> p \<le> 100"
    using st(2) by (auto simp: success(2) set_progresses dest: phase_ok_progress)
  moreover have "\<forall>e\<in>set (events (run_trace ev rq)).
      phase e = Some complete \<longrightarrow> progress e = Some 100"
    using st(2) by (auto simp: success(2) dest: phase_ok_complete)
  ultimately show ?thesis by blast
next
  case (failure s0 m)
  note st = stoppedD [OF failure(1)]
  have "sorted (progresses (events (run_trace ev rq)))"
    using st(3) by (simp add: failure(2) progs_def)
  moreover have "\<forall>p\<in>set (progresses (events (run_trace ev rq))). 0 \<le> p \<and> p \<le> 100"
    using st(2) by (auto simp: failure(2) set_progresses dest: phase_ok_progress)
  moreover have "\<forall>e\<in>set (events (run_trace ev rq)).
      phase e = Some complete \<longrightarrow> progress e = Some 100"
    using st(2) by (auto simp: failure(2) dest: phase_ok_complete)
  ultimately show ?thesis by blast
qed

text \<open>The run of the sample request: fifteen phase events, from 5 to 100.\<close>

theorem progress_nondecreasing_bounded_witness:
  "sorted (progresses (events (run_trace collaborators_ok request_full))) \<and>
   progresses (events (run_trace collaborators_ok request_full)) =
     [5, 10, 15, 20, 25, 35, 40, 55, 60, 75, 80, 90, 92, 98, 100]"
  using progress_nondecreasing_bounded [of collaborators_ok request_full] progresses_full
  by simp

subsection \<open>C6: a skipped bootstrap is never invoked\<close>

text \<open>
  Claim C6. For every run whose health-check hint sets \<open>skipBootstrap\<close>, so that the Skip
  Set contains \<open>bootstrap\<close>, the trace of the run holds no call of \<open>bootstrapInstance\<close>,
  with whatever arguments and whatever the collaborators do.
\<close>

theorem bootstrap_skipped_never_invoked:
  assumes "healthCheck rq = Some h" and "skipBootstrap h"
  shows "\<forall>u sk c e p. Call_bootstrapInstance u sk c e p \<notin> set (calls (run_trace ev rq))"
proof -
  from assms have "includes_step (skippedSteps rq) ''bootstrap''"
    by (simp add: includes_step_def skippedSteps_def hint_def)
  then have "\<forall>c\<in>set (calls (run_trace ev rq)). \<not> is_bootstrap_call c"
    by (intro run_calls) (simp_all add: redeploy_call_def)
  then show ?thesis by fastforce
qed

text \<open>A run that skips the bootstrap: four collaborator calls, none of them the bootstrap.\<close>

theorem bootstrap_skipped_never_invoked_witness:
  "healthCheck request_skip_bootstrap = Some hint_skip_bootstrap \<and>
   skipBootstrap hint_skip_bootstrap \<and>
   Call_bootstrapInstance ''https://abcd.supabase.co'' ''service-key'' ''Acme Corp''
     ''ops@acme.io'' ''secret1'' \<notin> set (calls (run_trace collaborators_ok request_skip_bootstrap)) \<and>
   length (calls (run_trace collaborators_ok request_skip_bootstrap)) = 4"
proof -
  have h: "healthCheck request_skip_bootstrap = Some hint_skip_bootstrap"
    by (simp add: request_skip_bootstrap_def)
  have b: "skipBootstrap hint_skip_bootstrap"
    by (simp add: hint_skip_bootstrap_def)
  from bootstrap_skipped_never_invoked [OF h b, of collaborators_ok] h b calls_skip_bootstrap
  show ?thesis by simp
qed

subsection \<open>C7: secrets before uploads, and nothing to deploy\<close>

text \<open>
  Claim C7. In every run, a call of \<open>deployAllSupabaseEdgeFunctions\<close> comes only after a
  call of \<open>setSupabaseEdgeFunctionSecrets\<close> that returned \<open>ok\<close>: the secrets are set
  before any upload begins. When the caller opted out or the local listing gave no bundle
  (\<open>has_local\<close> is false), the run calls neither of the two, and if it reaches the comms
  phase its event of progress 60 is directly followed by the event of progress 75: the
  phase advances with no error in between.
\<close>

theorem secrets_before_deploy_and_noop:
  "(\<forall>pre post p a.
      run_trace ev rq = pre @ Call (Call_deployAllSupabaseEdgeFunctions p a) # post \<longrightarrow>
      (\<exists>c\<in>set (calls pre). secrets_succeeded ev c)) \<and>
   (\<not> has_local ev rq \<longrightarrow>
      (\<forall>c\<in>set (calls (run_trace ev rq)). \<not> is_deployer_call c) \<and>
      (phase_event rq comms 60 \<in> set (events (run_trace ev rq)) \<longrightarrow>
         (\<exists>es1 es2. events (run_trace ev rq) =
            es1 @ phase_event rq comms 60 # phase_event rq comms 75 # es2)))"
proof (intro conjI allI impI ballI)
  fix pre post p a
  assume "run_trace ev rq = pre @ Call (Call_deployAllSupabaseEdgeFunctions p a) # post"
  with run_deploy_guarded [of ev rq]
  have "deploy_guarded ev [] (pre @ Call (Call_deployAllSupabaseEdgeFunctions p a) # post)"
    by simp
  then have "secrets_done ev ([] @ pre)"
    by (rule deploy_guardedD) simp
  then show "\<exists>c\<in>set (calls pre). secrets_succeeded ev c"
    by (simp add: secrets_done_def)
next
  fix c
  assume n: "\<not> has_local ev rq" and c: "c \<in> set (calls (run_trace ev rq))"
  from n have "\<forall>c\<in>set (calls (run_trace ev rq)). \<not> is_deployer_call c"
    by (intro run_calls) (simp_all add: redeploy_call_def)
  with c show "\<not> is_deployer_call c" by blast
next
  assume "\<not> has_local ev rq" and "phase_event rq comms 60 \<in> set (events (run_trace ev rq))"
  with run_comms_advanced [of ev rq]
  show "\<exists>es1 es2. events (run_trace ev rq) =
          es1 @ phase_event rq comms 60 # phase_event rq comms 75 # es2"
    by (simp add: comms_advanced_def adjacent_iff)
qed

text \<open>
  A run that deploys (the secrets call precedes the upload), and the sample run, which
  opts out.
\<close>

theorem secrets_before_deploy_and_noop_witness:
  "(\<exists>pre post.
      run_trace collaborators_ok request_deploy =
        pre @ Call (Call_deployAllSupabaseEdgeFunctions ''abcd'' ''sbp_token'') # post \<and>
      (\<exists>c\<in>set (calls pre). secrets_succeeded collaborators_ok c)) \<and>
   \<not> has_local collaborators_ok request_full \<and>
   phase_event request_full comms 60 \<in> set (events (run_trace collaborators_ok request_full)) \<and>
   (\<exists>es1 es2. events (run_trace collaborators_ok request_full) =
      es1 @ phase_event request_full comms 60 # phase_event request_full comms 75 # es2)"
proof -
  have "Call_deployAllSupabaseEdgeFunctions ''abcd'' ''sbp_token''
          \<in> set (calls (run_trace collaborators_ok request_deploy))"
    by (simp add: calls_deploy)
  then have "Call (Call_deployAllSupabaseEdgeFunctions ''abcd'' ''sbp_token'')
          \<in> set (run_trace collaborators_ok request_deploy)"
    by (simp only: mem_calls)
  then obtain pre post where
    t: "run_trace collaborators_ok request_deploy =
          pre @ Call (Call_deployAllSupabaseEdgeFunctions ''abcd'' ''sbp_token'') # post"
    by (auto simp: in_set_conv_decomp)
  with secrets_before_deploy_and_noop [of collaborators_ok request_deploy]
  have 1: "\<exists>c\<in>set (calls pre). secrets_succeeded collaborators_ok c"
    by blast
  have 2: "\<not> has_local collaborators_ok request_full"
    by (simp add: has_local_def sample_defs)
  with secrets_before_deploy_and_noop [of collaborators_ok request_full] events_full_comms
  have 3: "\<exists>es1 es2. events (run_trace collaborators_ok request_full) =
      es1 @ phase_event request_full comms 60 # phase_event request_full comms 75 # es2"
    by blast
  from t 1 2 3 events_full_comms show ?thesis by blast
qed

subsection \<open>C8: the confirmation of a deletion\<close>

text \<open>
  Claim C8 says that the project-delete route rejects every request whose \<open>confirmRef\<close> is
  not exactly equal to its \<open>projectRef\<close>. The route compares the two after \<open>trim()\<close>: in the
  request below \<open>confirmRef\<close> has a trailing space that \<open>projectRef\<close> has not, the two differ,
  and the route calls \<open>deleteSupabaseProject\<close> and answers 200.
\<close>

theorem padded_confirmation_deletes:
  "DeleteData.confirmRef (the (parsed request_delete_padded))
     \<noteq> DeleteData.projectRef (the (parsed request_delete_padded))
   \<and> POST_delete env_no_token request_delete_padded delete_always_ok
     = (Response 200 Ok_body, [Call_deleteSupabaseProject ''sbp_token'' ''abcd''])"
  by (simp add: route_defs route_sample_defs trim_abcd)

text \<open>
  Claim C8, amended: when \<open>confirmRef\<close> and \<open>projectRef\<close> differ after trimming, or the
  payload does not pass the schema, \<open>deleteSupabaseProject\<close> is never called and the answer is
  a 400 or a 403; it is the 400 of the confirmation mismatch as soon as the origin, the
  \<open>INSTALLER_ENABLED\<close> flag, the schema and the installer token let the request through.
\<close>

theorem confirmation_mismatch_rejected:
  assumes "\<forall>d. parsed req = Some d \<longrightarrow> trim (confirmRef d) \<noteq> trim (DeleteData.projectRef d)"
  shows "snd (POST_delete penv req del) = []
    \<and> (\<exists>b. fst (POST_delete penv req del) = Response 400 b
           \<or> fst (POST_delete penv req del) = Response 403 b)
    \<and> (isAllowedOrigin req \<and> INSTALLER_ENABLED penv \<noteq> Some ''false''
         \<and> (\<exists>d. parsed req = Some d \<and> \<not> token_rejected penv (DeleteData.installerToken d))
         \<longrightarrow> fst (POST_delete penv req del) = Response 400 (Error_body msg_confirmation_mismatch))"
  using assms by (auto simp: POST_delete_def split: option.splits)

text \<open>The theorem at a request whose two references differ in their last letter.\<close>

theorem confirmation_mismatch_rejected_witness:
  "trim (confirmRef (the (parsed request_delete_mismatch)))
     \<noteq> trim (DeleteData.projectRef (the (parsed request_delete_mismatch)))
   \<and> POST_delete env_no_token request_delete_mismatch delete_always_ok
     = (Response 400 (Error_body msg_confirmation_mismatch), [])"
  using confirmation_mismatch_rejected [of request_delete_mismatch env_no_token delete_always_ok]
  by (simp add: route_sample_defs trim_abcd token_rejected_def prod_eq_iff)

subsection \<open>C9: a failing redeploy\<close>

text \<open>
  Claim C9 says that a failure of the redeploy trigger is swallowed and logged. The
  \<open>catch\<close> block of the inner \<open>try\<close> is empty: the only log line of that block is
  written before the call. In the run below the trigger throws, and the log of the run is
  the log of the run in which it succeeds: after \<open>Log_disparando_redeploy\<close> comes
  \<open>Log_complete\<close> and nothing else.
\<close>

theorem redeploy_failure_not_logged:
  "triggerProjectRedeploy collaborators_redeploy_throws (token (vercel request_full))
     (projectId (vercel request_full)) (teamId_or_undefined request_full) =
   Throws (Error_instance redeploy_message) \<and>
   Call (redeploy_call request_full) \<in> set (run_trace collaborators_redeploy_throws request_full) \<and>
   logs (run_trace collaborators_redeploy_throws request_full) =
     [Log_inicio [], Log_phase1, Log_resolvendo_chaves False, Log_resolvendo_db_url False,
      Log_configurando_vercel, Log_phase2, Log_phase3, Log_executando_migrations,
      Log_migrations_concluidas, Log_phase4, Log_phase5, Log_criando_organizacao, Log_phase6,
      Log_disparando_redeploy, Log_complete] \<and>
   logs (run_trace collaborators_redeploy_throws request_full) =
     logs (run_trace collaborators_ok request_full)"
proof -
  have "run collaborators_redeploy_throws request_full = run collaborators_ok request_full"
    unfolding collaborators_redeploy_throws_def by (rule run_any_redeploy)
  then have "logs (run_trace collaborators_redeploy_throws request_full) =
     logs (run_trace collaborators_ok request_full)"
    by (simp add: run_trace_def)
  with redeploy_throws redeploy_reached logs_redeploy_throws show ?thesis
    by simp
qed

text \<open>
  Claim C9, amended. For every run in which the redeploy trigger is called and throws, the
  failure is swallowed silently: the call is directly followed by the phase event of
  progress 98, the log line and the two events of completion and the close of the writer;
  no event before it is an error event; the task ends normally; and the whole run is,
  action for action, the run in which the trigger succeeds.
\<close>

theorem redeploy_failure_swallowed:
  assumes "triggerProjectRedeploy ev (token (vercel rq)) (projectId (vercel rq))
             (teamId_or_undefined rq) = Throws err"
    and "Call (redeploy_call rq) \<in> set (run_trace ev rq)"
  shows "(\<exists>s0. run_trace ev rq =
            s0 @ [Log Log_disparando_redeploy, Call (redeploy_call rq),
                  Emit (phase_event rq landing 98), Log Log_complete,
                  Emit (phase_event rq complete 100), Emit complete_event, Close] \<and>
            (\<forall>e\<in>set (events s0). type e = T_phase)) \<and>
         settled ev rq = Fulfilled \<and>
         run ev rq = run (ev\<lparr>triggerProjectRedeploy := (\<lambda>t p team. Returns ())\<rparr>) rq"
proof (cases rule: run_cases [of ev rq])
  case (success s0)
  from landedD [OF success(4)] obtain s1 where
    s0: "s0 = s1 @ [Log Log_phase6, Emit (phase_event rq landing 92),
                    Log Log_disparando_redeploy, Call (redeploy_call rq),
                    Emit (phase_event rq landing 98)]"
    and st: "at_stage rq 5 s1"
    by blast
  let ?s = "s1 @ [Log Log_phase6, Emit (phase_event rq landing 92)]"
  from success(3) s0 have "run_trace ev rq =
      ?s @ [Log Log_disparando_redeploy, Call (redeploy_call rq),
            Emit (phase_event rq landing 98), Log Log_complete,
            Emit (phase_event rq complete 100), Emit complete_event, Close]"
    by (simp add: run_trace_def)
  moreover from at_stageD(2) [OF st] have "\<forall>e\<in>set (events ?s). type e = T_phase"
    by (simp add: phase_ok_def)
  moreover from success(3) have "settled ev rq = Fulfilled"
    by (simp add: settled_def)
  ultimately show ?thesis
    by (intro conjI exI [of _ ?s]) (simp_all add: run_any_redeploy)
next
  case (handled s0 m)
  from failed_run_no_redeploy [OF handled(1)] handled(3) assms(2) show ?thesis
    by (simp add: run_trace_def)
next
  case (thrown s0 e)
  from failed_run_no_redeploy [OF thrown(1)] thrown(3) assms(2) show ?thesis
    by (simp add: run_trace_def)
qed

text \<open>The run of the sample request when the trigger throws.\<close>

theorem redeploy_failure_swallowed_witness:
  "(\<exists>s0. run_trace collaborators_redeploy_throws request_full =
            s0 @ [Log Log_disparando_redeploy, Call (redeploy_call request_full),
                  Emit (phase_event request_full landing 98), Log Log_complete,
                  Emit (phase_event request_full complete 100), Emit complete_event, Close]) \<and>
   settled collaborators_redeploy_throws request_full = Fulfilled"
  using redeploy_failure_swallowed [OF redeploy_throws redeploy_reached]
  by blast

subsection \<open>C10: the installer token\<close>

text \<open>
  Claim C10: in each of the three routes (run-stream, project delete, project list), when
  \<open>INSTALLER_TOKEN\<close> is unset or empty the \<open>installerToken\<close> of the request is not
  checked: the route answers a request carrying any token, or none, as it answers the same
  request with another token. And a route answers with the 403 of the token mismatch only
  when a non-empty expected token is configured.
\<close>

theorem token_unchecked_when_unset:
  "(INSTALLER_TOKEN penv = None \<or> INSTALLER_TOKEN penv = Some [] \<longrightarrow>
      POST_run_stream penv (rr\<lparr>parsed := Some (rd\<lparr>RunData.installerToken := t\<rparr>)\<rparr>) ev
        = POST_run_stream penv (rr\<lparr>parsed := Some rd\<rparr>) ev
    \<and> POST_delete penv (dr\<lparr>parsed := Some (dd\<lparr>DeleteData.installerToken := t\<rparr>)\<rparr>) del
        = POST_delete penv (dr\<lparr>parsed := Some dd\<rparr>) del
    \<and> POST_list penv (lr\<lparr>parsed := Some (ld\<lparr>ListData.installerToken := t\<rparr>)\<rparr>) lc
        = POST_list penv (lr\<lparr>parsed := Some ld\<rparr>) lc)
   \<and> (POST_run_stream penv rr ev = Response 403 (Error_body msg_invalid_token)
      \<or> fst (POST_delete penv dr del) = Response 403 (Error_body msg_invalid_token)
      \<or> fst (POST_list penv lr lc) = Response 403 (Error_body msg_invalid_token)
      \<longrightarrow> (\<exists>expected. INSTALLER_TOKEN penv = Some expected \<and> expected \<noteq> []))"
proof -
  have "\<not> token_rejected penv x" if "INSTALLER_TOKEN penv = None \<or> INSTALLER_TOKEN penv = Some []"
    for x
    using that by (auto simp: token_rejected_def)
  then have "INSTALLER_TOKEN penv = None \<or> INSTALLER_TOKEN penv = Some [] \<longrightarrow>
      POST_run_stream penv (rr\<lparr>parsed := Some (rd\<lparr>RunData.installerToken := t\<rparr>)\<rparr>) ev
        = POST_run_stream penv (rr\<lparr>parsed := Some rd\<rparr>) ev
    \<and> POST_delete penv (dr\<lparr>parsed := Some (dd\<lparr>DeleteData.installerToken := t\<rparr>)\<rparr>) del
        = POST_delete penv (dr\<lparr>parsed := Some dd\<rparr>) del
    \<and> POST_list penv (lr\<lparr>parsed := Some (ld\<lparr>ListData.installerToken := t\<rparr>)\<rparr>) lc
        = POST_list penv (lr\<lparr>parsed := Some ld\<rparr>) lc"
    by (simp add: POST_run_stream_def POST_delete_def POST_list_def run_any_token)
  moreover have "\<exists>expected. INSTALLER_TOKEN penv = Some expected \<and> expected \<noteq> []"
    if "token_rejected penv x" for x
    using that by (auto simp: token_rejected_def split: option.splits)
  then have "POST_run_stream penv rr ev = Response 403 (Error_body msg_invalid_token)
      \<or> fst (POST_delete penv dr del) = Response 403 (Error_body msg_invalid_token)
      \<or> fst (POST_list penv lr lc) = Response 403 (Error_body msg_invalid_token)
      \<longrightarrow> (\<exists>expected. INSTALLER_TOKEN penv = Some expected \<and> expected \<noteq> [])"
    by (auto simp: POST_run_stream_def POST_delete_def POST_list_def list_projects_def
        msg_invalid_token_def msg_forbidden_def msg_installer_disabled_def status_or_500_def
        split: if_splits option.splits outcome.splits organization_result.splits
          projects_result.splits delete_result.splits)
  ultimately show ?thesis
    by blast
qed

text \<open>
  The theorem at requests carrying a guessed token: with no expected token they pass the
  token check of each route; with an expected token the project-list route refuses.
\<close>

theorem token_unchecked_when_unset_witness:
  "INSTALLER_TOKEN env_no_token = None
   \<and> POST_run_stream env_no_token request_run_guess collaborators_ok
       = Event_stream (run collaborators_ok request_no_token)
   \<and> POST_delete env_no_token request_delete_mismatch delete_always_ok
       = POST_delete env_no_token
           (request_delete_mismatch
              \<lparr>parsed := Some (the (parsed request_delete_mismatch)
                                  \<lparr>DeleteData.installerToken := None\<rparr>)\<rparr>) delete_always_ok
   \<and> POST_list env_no_token request_list_guess list_org_missing
       = (Response 404 (Error_status_body ''Not found'' (Some 404)),
          [Call_getSupabaseOrganization ''sbp_token'' ''acme''])
   \<and> POST_list env_with_token request_list_guess list_org_missing
       = (Response 403 (Error_body msg_invalid_token), [])
   \<and> INSTALLER_TOKEN env_with_token = Some ''s3cret''"
  using token_unchecked_when_unset [where penv = env_no_token and rr = request_run_guess
      and rd = request_no_token and t = "Some ''guess''" and ev = collaborators_ok
      and dr = request_delete_mismatch
      and dd = "the (parsed request_delete_mismatch)\<lparr>DeleteData.installerToken := None\<rparr>"
      and del = delete_always_ok and lr = request_list_guess
      and ld = "the (parsed request_list_guess)" and lc = list_org_missing]
    token_unchecked_when_unset [where penv = env_with_token and lr = request_list_guess
      and lc = list_org_missing]
  by (simp add: route_defs route_sample_defs trim_abcd)

end
